theory Spec2Isabelle
  imports Complex_Main
begin

section \<open>Neonatal early-onset sepsis calculator (src/src/App.js)\<close>

text \<open>
  The calculator keeps six selections as JavaScript strings, derives the risk string
  \<open>sepsisRisk\<close> (the specification's \<open>computeRisk\<close>) and from it the
  \<open>recommendation\<close> (the specification's \<open>classify\<close>).

  Representation.
  \<^item> A JavaScript string is a \<open>string\<close> holding its UTF-8 bytes; the two non-ASCII
    code points of the source, U+2265 and U+2264, are therefore three bytes each. Equality
    of strings, which is all the table lookups use, is preserved by that encoding.
  \<^item> A JavaScript number is a \<open>number\<close>: \<open>NaN\<close>, the two infinities, or a finite
    value carried as an exact rational. The special values follow IEEE 754; arithmetic on
    finite values is exact, so the rounding error of binary64, overflow to infinity and the
    sign of zero are not modelled. Statements that fix the digits of a computed result are
    therefore made at single inputs and for the inputs the form offers (the five incidences
    of the selector, the keys of the table), where that rounding does not change the two
    decimals printed; statements for every incidence concern the guard, the special
    values, the lookups and the equality of two runs of one computation.
  \<^item> A property read that finds no number (\<open>undefined\<close>, or a member inherited from
    \<open>Object.prototype\<close>) is \<open>None\<close>; \<open>ToNumber\<close> turns it into \<open>NaN\<close>.
\<close>

subsection \<open>Numbers\<close>

datatype number = NaN | PInf | NInf | Fin rat

fun isNaN :: "number \<Rightarrow> bool" where
  "isNaN NaN = True"
| "isNaN _ = False"

fun neg :: "number \<Rightarrow> number" where
  "neg NaN = NaN"
| "neg PInf = NInf"
| "neg NInf = PInf"
| "neg (Fin a) = Fin (- a)"

fun num_add :: "number \<Rightarrow> number \<Rightarrow> number" where
  "num_add NaN _ = NaN"
| "num_add _ NaN = NaN"
| "num_add PInf NInf = NaN"
| "num_add NInf PInf = NaN"
| "num_add PInf _ = PInf"
| "num_add _ PInf = PInf"
| "num_add NInf _ = NInf"
| "num_add _ NInf = NInf"
| "num_add (Fin a) (Fin b) = Fin (a + b)"

definition num_sub :: "number \<Rightarrow> number \<Rightarrow> number" where
  "num_sub a b = num_add a (neg b)"

text \<open>The sign of a finite factor; zero times infinity is \<open>NaN\<close>.\<close>

definition inf_times :: "bool \<Rightarrow> rat \<Rightarrow> number" where
  "inf_times positive b =
     (if b = 0 then NaN else if (0 < b) = positive then PInf else NInf)"

fun num_mul :: "number \<Rightarrow> number \<Rightarrow> number" where
  "num_mul NaN _ = NaN"
| "num_mul _ NaN = NaN"
| "num_mul PInf PInf = PInf"
| "num_mul PInf NInf = NInf"
| "num_mul NInf PInf = NInf"
| "num_mul NInf NInf = PInf"
| "num_mul PInf (Fin b) = inf_times True b"
| "num_mul NInf (Fin b) = inf_times False b"
| "num_mul (Fin a) PInf = inf_times True a"
| "num_mul (Fin a) NInf = inf_times False a"
| "num_mul (Fin a) (Fin b) = Fin (a * b)"

text \<open>
  Division. A finite divisor equal to zero is the positive zero in this program (it is
  always a difference \<open>x - x\<close> or a sum \<open>1 + (-1)\<close>), so the quotient takes the sign of
  the dividend.
\<close>

fun num_div :: "number \<Rightarrow> number \<Rightarrow> number" where
  "num_div NaN _ = NaN"
| "num_div _ NaN = NaN"
| "num_div PInf PInf = NaN"
| "num_div PInf NInf = NaN"
| "num_div NInf PInf = NaN"
| "num_div NInf NInf = NaN"
| "num_div PInf (Fin b) = (if 0 \<le> b then PInf else NInf)"
| "num_div NInf (Fin b) = (if 0 \<le> b then NInf else PInf)"
| "num_div (Fin a) PInf = Fin 0"
| "num_div (Fin a) NInf = Fin 0"
| "num_div (Fin a) (Fin b) =
     (if b = 0 then (if a = 0 then NaN else if 0 < a then PInf else NInf)
      else Fin (a / b))"

text \<open>Comparisons: every comparison with \<open>NaN\<close> is false.\<close>

fun num_le :: "number \<Rightarrow> number \<Rightarrow> bool" where
  "num_le NaN _ = False"
| "num_le _ NaN = False"
| "num_le NInf _ = True"
| "num_le _ PInf = True"
| "num_le PInf _ = False"
| "num_le _ NInf = False"
| "num_le (Fin a) (Fin b) = (a \<le> b)"

fun num_lt :: "number \<Rightarrow> number \<Rightarrow> bool" where
  "num_lt NaN _ = False"
| "num_lt _ NaN = False"
| "num_lt PInf _ = False"
| "num_lt _ NInf = False"
| "num_lt NInf _ = True"
| "num_lt _ PInf = True"
| "num_lt (Fin a) (Fin b) = (a < b)"

definition num_ge :: "number \<Rightarrow> number \<Rightarrow> bool" where
  "num_ge a b = num_le b a"

definition num_gt :: "number \<Rightarrow> number \<Rightarrow> bool" where
  "num_gt a b = num_lt b a"

text \<open>\<open>ToNumber\<close> of what a property read returned.\<close>

fun toNumber :: "rat option \<Rightarrow> number" where
  "toNumber None = NaN"
| "toNumber (Some v) = Fin v"

subsection \<open>Decimal digits\<close>

definition is_digit :: "char \<Rightarrow> bool" where
  "is_digit c = (c \<in> set ''0123456789'')"

definition digit_val :: "char \<Rightarrow> nat" where
  "digit_val c = of_char c - 48"

definition digit_char :: "nat \<Rightarrow> char" where
  "digit_char d = ''0123456789'' ! d"

definition digits_val :: "string \<Rightarrow> nat" where
  "digits_val ds = foldl (\<lambda>a c. 10 * a + digit_val c) 0 ds"

fun nat_digits :: "nat \<Rightarrow> string" where
  "nat_digits n =
     (if n < 10 then [digit_char n] else nat_digits (n div 10) @ [digit_char (n mod 10)])"

declare nat_digits.simps [simp del]

subsection \<open>parseFloat\<close>

text \<open>
  \<open>parseFloat\<close> drops leading white space and line terminators, then reads the longest
  prefix that is a \<open>StrDecimalLiteral\<close>: an optional sign, then \<open>Infinity\<close> or a
  decimal mantissa with an optional exponent. With no such prefix the result is \<open>NaN\<close>.
  The value is the exact decimal value of the literal: its rounding to the nearest
  binary64 number is not modelled.
\<close>

definition ws1 :: "char \<Rightarrow> bool" where
  "ws1 c = (c \<in> set [CHR 0x09, CHR 0x0A, CHR 0x0B, CHR 0x0C, CHR 0x0D, CHR 0x20])"

text \<open>U+00A0, as UTF-8.\<close>

definition ws2 :: "char \<Rightarrow> char \<Rightarrow> bool" where
  "ws2 a b = (a = CHR 0xC2 \<and> b = CHR 0xA0)"

text \<open>
  U+1680, U+2000 to U+200A, U+2028, U+2029, U+202F, U+205F, U+3000 and U+FEFF, as UTF-8.
\<close>

definition ws3 :: "char \<Rightarrow> char \<Rightarrow> char \<Rightarrow> bool" where
  "ws3 a b c =
     ((a = CHR 0xE1 \<and> b = CHR 0x9A \<and> c = CHR 0x80) \<or>
      (a = CHR 0xE2 \<and> b = CHR 0x80 \<and>
         ((128::nat) \<le> of_char c \<and> (of_char c :: nat) \<le> 138 \<or>
          c = CHR 0xA8 \<or> c = CHR 0xA9 \<or> c = CHR 0xAF)) \<or>
      (a = CHR 0xE2 \<and> b = CHR 0x81 \<and> c = CHR 0x9F) \<or>
      (a = CHR 0xE3 \<and> b = CHR 0x80 \<and> c = CHR 0x80) \<or>
      (a = CHR 0xEF \<and> b = CHR 0xBB \<and> c = CHR 0xBF))"

fun trimStart :: "string \<Rightarrow> string" where
  "trimStart [] = []"
| "trimStart (c # cs) =
     (if ws1 c then trimStart cs
      else case cs of
        [] \<Rightarrow> c # cs
      | d # r \<Rightarrow>
          if ws2 c d then trimStart r
          else (case r of
            [] \<Rightarrow> c # cs
          | e # r' \<Rightarrow> if ws3 c d e then trimStart r' else c # cs))"

text \<open>
  The exponent part: \<open>e\<close> or \<open>E\<close>, an optional sign and at least one digit; anything
  else after the mantissa is not part of the literal.
\<close>

definition exponent_part :: "string \<Rightarrow> int" where
  "exponent_part s =
     (case s of
        [] \<Rightarrow> 0
      | c # r \<Rightarrow>
          if c = CHR ''e'' \<or> c = CHR ''E'' then
            (case r of
               [] \<Rightarrow> 0
             | d # r' \<Rightarrow>
                 if d = CHR ''+'' then int (digits_val (takeWhile is_digit r'))
                 else if d = CHR ''-'' then - int (digits_val (takeWhile is_digit r'))
                 else int (digits_val (takeWhile is_digit r)))
          else 0)"

definition scale10 :: "rat \<Rightarrow> int \<Rightarrow> rat" where
  "scale10 m e = (if 0 \<le> e then m * 10 ^ nat e else m / 10 ^ nat (- e))"

definition strUnsignedDecimalLiteral :: "string \<Rightarrow> number" where
  "strUnsignedDecimalLiteral s =
     (if take 8 s = ''Infinity'' then PInf
      else
        let ip = takeWhile is_digit s;
            r1 = dropWhile is_digit s;
            fp = (case r1 of
                    [] \<Rightarrow> []
                  | c # r \<Rightarrow> if c = CHR ''.'' then takeWhile is_digit r else []);
            r2 = (case r1 of
                    [] \<Rightarrow> []
                  | c # r \<Rightarrow>
                      if c = CHR ''.'' \<and> (ip \<noteq> [] \<or> fp \<noteq> [])
                      then dropWhile is_digit r else r1)
        in if ip = [] \<and> fp = [] then NaN
           else Fin (scale10 (of_nat (digits_val (ip @ fp)) / 10 ^ length fp)
                       (exponent_part r2)))"

definition parseFloat :: "string \<Rightarrow> number" where
  "parseFloat s =
     (case trimStart s of
        [] \<Rightarrow> NaN
      | c # r \<Rightarrow>
          if c = CHR ''+'' then strUnsignedDecimalLiteral r
          else if c = CHR ''-'' then neg (strUnsignedDecimalLiteral r)
          else strUnsignedDecimalLiteral (c # r))"

subsection \<open>Number.prototype.toFixed(2)\<close>

text \<open>
  A value that is not finite is printed by \<open>ToString\<close>. Otherwise the sign is split off;
  below \<open>10^21\<close> the digits are those of the integer \<open>n\<close> nearest to a hundred times
  the value (the larger one on a tie), padded to three digits, with the point before the
  last two. From \<open>10^21\<close> on the digits are \<open>ToString\<close> of the binary64 value, in
  exponent notation: they depend on the binary representation and are the parameter
  \<open>big\<close>.
\<close>

definition toFixed2 :: "(rat \<Rightarrow> string) \<Rightarrow> number \<Rightarrow> string" where
  "toFixed2 big x =
     (case x of
        NaN \<Rightarrow> ''NaN''
      | PInf \<Rightarrow> ''Infinity''
      | NInf \<Rightarrow> ''-Infinity''
      | Fin r \<Rightarrow>
          let s = (if r < 0 then ''-'' else '''');
              a = (if r < 0 then - r else r)
          in if 10 ^ 21 \<le> a then s @ big a
             else
               let n = nat \<lfloor>a * 100 + 1 / 2\<rfloor>;
                   m = (if n = 0 then ''0'' else nat_digits n);
                   k = length m;
                   m' = (if k \<le> 2 then replicate (3 - k) CHR ''0'' @ m else m);
                   k' = length m'
               in s @ take (k' - 2) m' @ ''.'' @ drop (k' - 2) m')"

subsection \<open>The likelihood-ratio table\<close>

definition geq_sign :: string where
  "geq_sign = [CHR 0xE2, CHR 0x89, CHR 0xA5]"

definition leq_sign :: string where
  "leq_sign = [CHR 0xE2, CHR 0x89, CHR 0xA4]"

definition LR_gestationalAge :: "(string \<times> rat) list" where
  "LR_gestationalAge =
     [(geq_sign @ ''42'', 1.4),
      (''41 0/7-41 6/7'', 1.1),
      (''40 0/7-40 6/7'', 0.8),
      (''39 0/7-39 6/7'', 0.6),
      (''38 0/7-38 6/7'', 0.5),
      (''37 0/7-37 6/7'', 0.4),
      (''36 0/7-36 6/7'', 0.7),
      (''35 0/7-35 6/7'', 1.3),
      (leq_sign @ ''34 6/7'', 2.3)]"

definition LR_rom :: "(string \<times> rat) list" where
  "LR_rom = [(''<12'', 0.6), (''12-18'', 1.3), (''18-24'', 1.7), (''>24'', 2.1)]"

definition LR_highestTemp :: "(string \<times> rat) list" where
  "LR_highestTemp = [(''<38'', 0.4), (geq_sign @ ''38'', 3.7)]"

definition LR_gbsStatus :: "(string \<times> rat) list" where
  "LR_gbsStatus = [(''positive'', 2.0), (''negative'', 0.4), (''unknown'', 1.0)]"

definition LR_iap :: "(string \<times> rat) list" where
  "LR_iap =
     [(''adequate_pen_amp'', 0.2),
      (''adequate_cefazolin'', 0.4),
      (''adequate_clinda_vanco'', 0.9),
      (''inadequate_or_no'', 1.0),
      (''no_iap_needed'', 1.0)]"

subsection \<open>sepsisRisk and recommendation\<close>

definition lrIap :: "string \<Rightarrow> string \<Rightarrow> rat option" where
  "lrIap gbsStatus iap =
     (if iap = ''no_iap_needed'' \<or> gbsStatus \<noteq> ''positive'' then Some 1.0
      else map_of LR_iap iap)"

definition priorOdds :: "number \<Rightarrow> number" where
  "priorOdds numericIncidence =
     num_div numericIncidence (num_sub (Fin 1000) numericIncidence)"

definition combinedLR :: "string \<Rightarrow> string \<Rightarrow> string \<Rightarrow> string \<Rightarrow> string \<Rightarrow> number" where
  "combinedLR gestationalAge highestTemp rom gbsStatus iap =
     num_mul (num_mul (num_mul (num_mul
       (toNumber (map_of LR_gestationalAge gestationalAge))
       (toNumber (map_of LR_highestTemp highestTemp)))
       (toNumber (map_of LR_rom rom)))
       (toNumber (map_of LR_gbsStatus gbsStatus)))
       (toNumber (lrIap gbsStatus iap))"

definition sepsisRisk ::
  "(rat \<Rightarrow> string) \<Rightarrow> string \<Rightarrow> string \<Rightarrow> string \<Rightarrow> string \<Rightarrow> string \<Rightarrow> string \<Rightarrow> string"
where
  "sepsisRisk big incidence gestationalAge highestTemp rom gbsStatus iap =
     (let numericIncidence = parseFloat incidence in
      if isNaN numericIncidence \<or> num_le numericIncidence (Fin 0) then ''0.00''
      else
        let posteriorOdds =
              num_mul (priorOdds numericIncidence)
                (combinedLR gestationalAge highestTemp rom gbsStatus iap);
            posteriorProbability = num_div posteriorOdds (num_add (Fin 1) posteriorOdds)
        in toFixed2 big (num_mul posteriorProbability (Fin 1000)))"

record recommendation_t =
  rec_text :: string
  rec_color :: string

definition recommendation :: "string \<Rightarrow> recommendation_t" where
  "recommendation risk_string =
     (let risk = parseFloat risk_string in
      if num_gt risk (Fin 1.18)
      then \<lparr>rec_text = ''Empiric Antibiotics Recommended'', rec_color = ''bg-red-500''\<rparr>
      else if num_ge risk (Fin 0.65) \<and> num_le risk (Fin 1.18)
      then \<lparr>rec_text = ''Enhanced Vital Signs'', rec_color = ''bg-yellow-500''\<rparr>
      else \<lparr>rec_text = ''Routine Care'', rec_color = ''bg-green-500''\<rparr>)"

subsection \<open>The form state and the GBS/IAP effect\<close>

text \<open>
  The six \<open>useState\<close> cells. An event is one \<open>onChange\<close> of a selector or a click on
  Reset; its handler's updates are applied together, the component renders again, and the
  effect with dependency \<open>[gbsStatus]\<close> runs after that render when \<open>gbsStatus\<close>
  differs from the previous render's. The effect's own update of \<open>iap\<close> leaves
  \<open>gbsStatus\<close> as it is, so the effect does not run a second time and the state is
  settled. The IAP selector is disabled while \<open>gbsStatus\<close> is not \<open>positive\<close>: its
  \<open>onChange\<close> cannot fire then.
\<close>

record form_state =
  s_incidence :: string
  s_gestationalAge :: string
  s_highestTemp :: string
  s_rom :: string
  s_gbsStatus :: string
  s_iap :: string

definition DEFAULT_INCIDENCE :: string where
  "DEFAULT_INCIDENCE = ''0.5''"

definition initial_state :: form_state where
  "initial_state =
     \<lparr>s_incidence = DEFAULT_INCIDENCE, s_gestationalAge = geq_sign @ ''42'',
      s_highestTemp = ''<38'', s_rom = ''<12'', s_gbsStatus = ''negative'',
      s_iap = ''no_iap_needed''\<rparr>"

datatype event =
    SetIncidence string
  | SetGestationalAge string
  | SetHighestTemp string
  | SetRom string
  | SetGbsStatus string
  | SetIap string
  | HandleReset

fun apply_event :: "form_state \<Rightarrow> event \<Rightarrow> form_state" where
  "apply_event s (SetIncidence v) = s\<lparr>s_incidence := v\<rparr>"
| "apply_event s (SetGestationalAge v) = s\<lparr>s_gestationalAge := v\<rparr>"
| "apply_event s (SetHighestTemp v) = s\<lparr>s_highestTemp := v\<rparr>"
| "apply_event s (SetRom v) = s\<lparr>s_rom := v\<rparr>"
| "apply_event s (SetGbsStatus v) = s\<lparr>s_gbsStatus := v\<rparr>"
| "apply_event s (SetIap v) = s\<lparr>s_iap := v\<rparr>"
| "apply_event s HandleReset =
     s\<lparr>s_incidence := DEFAULT_INCIDENCE, s_gestationalAge := geq_sign @ ''42'',
       s_highestTemp := ''<38'', s_rom := ''<12'', s_gbsStatus := ''negative'',
       s_iap := ''no_iap_needed''\<rparr>"

definition gbs_effect :: "form_state \<Rightarrow> form_state" where
  "gbs_effect s = (if s_gbsStatus s \<noteq> ''positive'' then s\<lparr>s_iap := ''no_iap_needed''\<rparr> else s)"

definition commit :: "form_state \<Rightarrow> form_state \<Rightarrow> form_state" where
  "commit prev cur = (if s_gbsStatus cur \<noteq> s_gbsStatus prev then gbs_effect cur else cur)"

fun enabled :: "form_state \<Rightarrow> event \<Rightarrow> bool" where
  "enabled s (SetIap v) = (s_gbsStatus s = ''positive'')"
| "enabled s _ = True"

definition step :: "form_state \<Rightarrow> event \<Rightarrow> form_state option" where
  "step s e = (if enabled s e then Some (commit s (apply_event s e)) else None)"

text \<open>The state after the first render: every effect runs once on mount.\<close>

definition mounted :: form_state where
  "mounted = gbs_effect initial_state"

fun run :: "form_state \<Rightarrow> event list \<Rightarrow> form_state option" where
  "run s [] = Some s"
| "run s (e # es) = (case step s e of None \<Rightarrow> None | Some s' \<Rightarrow> run s' es)"

text \<open>The keys of the incidence selector's options.\<close>

definition incidence_options :: "string list" where
  "incidence_options = [''0.2'', ''0.3'', ''0.5'', ''0.7'', ''1.0'']"

subsection \<open>The algorithm as the specification words it\<close>

text \<open>
  Steps 2 and 5 to 8 of the specification's \<open>computeRisk\<close>, over the rationals, for
  comparison with \<open>sepsisRisk\<close>: prior odds, posterior odds from the combined likelihood
  ratio, posterior probability, and the risk per 1000 births. The result is that risk
  rounded to hundredths (the nearer one, the upper one on a tie) and written in
  fixed-point notation with exactly two decimals.
\<close>

definition spec_priorOdds :: "rat \<Rightarrow> rat" where
  "spec_priorOdds incidence = incidence / (1000 - incidence)"

definition spec_posteriorOdds :: "rat \<Rightarrow> rat \<Rightarrow> rat" where
  "spec_posteriorOdds incidence combined = spec_priorOdds incidence * combined"

definition spec_posteriorProbability :: "rat \<Rightarrow> rat \<Rightarrow> rat" where
  "spec_posteriorProbability incidence combined =
     spec_posteriorOdds incidence combined / (1 + spec_posteriorOdds incidence combined)"

definition spec_risk :: "rat \<Rightarrow> rat \<Rightarrow> rat" where
  "spec_risk incidence combined = spec_posteriorProbability incidence combined * 1000"

definition hundredths :: "rat \<Rightarrow> nat" where
  "hundredths x = nat \<lfloor>x * 100 + 1 / 2\<rfloor>"

definition spec_fixed2 :: "rat \<Rightarrow> string" where
  "spec_fixed2 x =
     nat_digits (hundredths x div 100) @ ''.'' @
     [digit_char (hundredths x div 10 mod 10), digit_char (hundredths x mod 10)]"

text \<open>A string of one or more digits, a point and exactly two digits.\<close>

definition fixed2_format :: "string \<Rightarrow> bool" where
  "fixed2_format s =
     (4 \<le> length s \<and> list_all is_digit (take (length s - 3) s) \<and>
      s ! (length s - 3) = CHR ''.'' \<and> list_all is_digit (drop (length s - 2) s))"

text \<open>The derived-field invariant between the GBS status and the IAP selection.\<close>

definition gbs_iap_invariant :: "form_state \<Rightarrow> bool" where
  "gbs_iap_invariant s = (s_gbsStatus s \<noteq> ''positive'' \<longrightarrow> s_iap s = ''no_iap_needed'')"

section \<open>Properties\<close>

subsection \<open>Auxiliary facts\<close>

lemmas table_defs =
  LR_gestationalAge_def LR_rom_def LR_highestTemp_def LR_gbsStatus_def LR_iap_def
  geq_sign_def leq_sign_def

lemmas parse_defs =
  parseFloat_def strUnsignedDecimalLiteral_def exponent_part_def scale10_def
  ws1_def ws2_def ws3_def is_digit_def digits_val_def digit_val_def

lemma num_mul_NaN_right [simp]: "num_mul x NaN = NaN"
  by (cases x) simp_all

lemma num_div_NaN_right [simp]: "num_div x NaN = NaN"
  by (cases x) simp_all

lemma num_add_NaN_right [simp]: "num_add x NaN = NaN"
  by (cases x) simp_all

lemma parseFloat_NaN_string: "parseFloat ''NaN'' = NaN"
  by (simp add: parse_defs)

lemma recommendation_NaN_string: "rec_text (recommendation ''NaN'') = ''Routine Care''"
  by (simp add: recommendation_def parseFloat_NaN_string num_gt_def num_ge_def)

lemma sepsisRisk_rejected:
  assumes "isNaN (parseFloat incidence) \<or> num_le (parseFloat incidence) (Fin 0)"
  shows "sepsisRisk big incidence ga t r g i = ''0.00''"
  using assms by (simp add: sepsisRisk_def Let_def)

lemma sepsisRisk_accepted:
  assumes "\<not> (isNaN (parseFloat incidence) \<or> num_le (parseFloat incidence) (Fin 0))"
  shows "sepsisRisk big incidence ga t r g i =
         toFixed2 big (num_mul
           (num_div (num_mul (priorOdds (parseFloat incidence)) (combinedLR ga t r g i))
              (num_add (Fin 1) (num_mul (priorOdds (parseFloat incidence)) (combinedLR ga t r g i))))
           (Fin 1000))"
  using assms by (simp add: sepsisRisk_def Let_def)

lemma combinedLR_NaN:
  assumes "map_of LR_gestationalAge ga = None \<or> map_of LR_highestTemp t = None \<or>
           map_of LR_rom r = None \<or> map_of LR_gbsStatus g = None \<or> lrIap g i = None"
  shows "combinedLR ga t r g i = NaN"
  using assms by (auto simp: combinedLR_def)

lemma sepsisRisk_NaN:
  assumes "\<not> (isNaN (parseFloat incidence) \<or> num_le (parseFloat incidence) (Fin 0))"
    and "combinedLR ga t r g i = NaN"
  shows "sepsisRisk big incidence ga t r g i = ''NaN''"
  by (simp add: sepsisRisk_accepted [OF assms(1)] assms(2) toFixed2_def)

subsection \<open>The coefficient table\<close>

text \<open>
  Claim C5. The table holds the coefficients the specification names: gestational age
  \<open>\<ge>42\<close> weeks 1.4 and \<open>\<le>34 6/7\<close> weeks 2.3; temperature \<open><38\<close> 0.4 and
  \<open>\<ge>38\<close> 3.7; rupture of membranes \<open><12\<close> 0.6 and \<open>>24\<close> 2.1; GBS positive
  2.0, negative 0.4, unknown 1.0; IAP penicillin or ampicillin 0.2, cefazolin 0.4,
  clindamycin or vancomycin 0.9, inadequate or none 1.0; and the two codes
  \<open>no_iap_needed\<close> and \<open>inadequate_or_no\<close> both carry 1.0. The sub-tables have
  exactly the listed keys (nine for gestational age).
\<close>

theorem likelihood_ratio_table:
  "map_of LR_gestationalAge (geq_sign @ ''42'') = Some 1.4 \<and>
   map_of LR_gestationalAge (leq_sign @ ''34 6/7'') = Some 2.3 \<and>
   map_of LR_highestTemp ''<38'' = Some 0.4 \<and>
   map_of LR_highestTemp (geq_sign @ ''38'') = Some 3.7 \<and>
   map_of LR_rom ''<12'' = Some 0.6 \<and>
   map_of LR_rom ''>24'' = Some 2.1 \<and>
   map_of LR_gbsStatus ''positive'' = Some 2.0 \<and>
   map_of LR_gbsStatus ''negative'' = Some 0.4 \<and>
   map_of LR_gbsStatus ''unknown'' = Some 1.0 \<and>
   map_of LR_iap ''adequate_pen_amp'' = Some 0.2 \<and>
   map_of LR_iap ''adequate_cefazolin'' = Some 0.4 \<and>
   map_of LR_iap ''adequate_clinda_vanco'' = Some 0.9 \<and>
   map_of LR_iap ''inadequate_or_no'' = Some 1.0 \<and>
   map_of LR_iap ''no_iap_needed'' = Some 1.0 \<and>
   map fst LR_highestTemp = [''<38'', geq_sign @ ''38''] \<and>
   map fst LR_rom = [''<12'', ''12-18'', ''18-24'', ''>24''] \<and>
   map fst LR_gbsStatus = [''positive'', ''negative'', ''unknown''] \<and>
   map fst LR_iap =
     [''adequate_pen_amp'', ''adequate_cefazolin'', ''adequate_clinda_vanco'',
      ''inadequate_or_no'', ''no_iap_needed''] \<and>
   length LR_gestationalAge = 9"
  by (simp add: table_defs)

subsection \<open>Thresholds of the recommendation\<close>

text \<open>
  Claim C2. For a risk string that reads as the number \<open>x\<close>, the recommendation is
  Empiric Antibiotics Recommended when \<open>x > 1.18\<close>, Enhanced Vital Signs when
  \<open>0.65 \<le> x \<le> 1.18\<close> and Routine Care when \<open>x < 0.65\<close>; the two infinities fall
  on the side their order gives them. In particular 0.65 and 1.18 give Enhanced Vital
  Signs, 0.6499 gives Routine Care and 1.1801 gives Empiric Antibiotics Recommended.
\<close>

theorem recommendation_thresholds:
  "(parseFloat s = Fin x \<longrightarrow>
      (1.18 < x \<longrightarrow> rec_text (recommendation s) = ''Empiric Antibiotics Recommended'') \<and>
      (0.65 \<le> x \<and> x \<le> 1.18 \<longrightarrow> rec_text (recommendation s) = ''Enhanced Vital Signs'') \<and>
      (x < 0.65 \<longrightarrow> rec_text (recommendation s) = ''Routine Care'')) \<and>
   (parseFloat s = PInf \<longrightarrow> rec_text (recommendation s) = ''Empiric Antibiotics Recommended'') \<and>
   (parseFloat s = NInf \<longrightarrow> rec_text (recommendation s) = ''Routine Care'') \<and>
   rec_text (recommendation ''0.65'') = ''Enhanced Vital Signs'' \<and>
   rec_text (recommendation ''1.18'') = ''Enhanced Vital Signs'' \<and>
   rec_text (recommendation ''0.6499'') = ''Routine Care'' \<and>
   rec_text (recommendation ''1.1801'') = ''Empiric Antibiotics Recommended''"
proof -
  have general: "parseFloat s = Fin x \<longrightarrow>
      (1.18 < x \<longrightarrow> rec_text (recommendation s) = ''Empiric Antibiotics Recommended'') \<and>
      (0.65 \<le> x \<and> x \<le> 1.18 \<longrightarrow> rec_text (recommendation s) = ''Enhanced Vital Signs'') \<and>
      (x < 0.65 \<longrightarrow> rec_text (recommendation s) = ''Routine Care'')"
    by (simp add: recommendation_def num_gt_def num_ge_def)
  have inf: "(parseFloat s = PInf \<longrightarrow> rec_text (recommendation s) = ''Empiric Antibiotics Recommended'') \<and>
   (parseFloat s = NInf \<longrightarrow> rec_text (recommendation s) = ''Routine Care'')"
    by (simp add: recommendation_def num_gt_def num_ge_def)
  have p1: "parseFloat ''0.65'' = Fin 0.65" by (simp add: parse_defs)
  have p2: "parseFloat ''1.18'' = Fin 1.18" by (simp add: parse_defs)
  have p3: "parseFloat ''0.6499'' = Fin 0.6499" by (simp add: parse_defs)
  have p4: "parseFloat ''1.1801'' = Fin 1.1801" by (simp add: parse_defs)
  have c1: "rec_text (recommendation ''0.65'') = ''Enhanced Vital Signs''"
    by (simp add: recommendation_def p1 num_gt_def num_ge_def)
  have c2: "rec_text (recommendation ''1.18'') = ''Enhanced Vital Signs''"
    by (simp add: recommendation_def p2 num_gt_def num_ge_def)
  have c3: "rec_text (recommendation ''0.6499'') = ''Routine Care''"
    by (simp add: recommendation_def p3 num_gt_def num_ge_def)
  have c4: "rec_text (recommendation ''1.1801'') = ''Empiric Antibiotics Recommended''"
    by (simp add: recommendation_def p4 num_gt_def num_ge_def)
  from general inf c1 c2 c3 c4 show ?thesis by blast
qed

theorem recommendation_thresholds_witness:
  "parseFloat ''2.50'' = Fin 2.5 \<and> (1.18::rat) < 2.5 \<and>
   rec_text (recommendation ''2.50'') = ''Empiric Antibiotics Recommended'' \<and>
   parseFloat ''0.90'' = Fin 0.9 \<and> (0.65::rat) \<le> 0.9 \<and> (0.9::rat) \<le> 1.18 \<and>
   rec_text (recommendation ''0.90'') = ''Enhanced Vital Signs'' \<and>
   parseFloat ''0.07'' = Fin 0.07 \<and> (0.07::rat) < 0.65 \<and>
   rec_text (recommendation ''0.07'') = ''Routine Care'' \<and>
   parseFloat ''Infinity'' = PInf \<and>
   rec_text (recommendation ''Infinity'') = ''Empiric Antibiotics Recommended'' \<and>
   parseFloat ''-Infinity'' = NInf \<and>
   rec_text (recommendation ''-Infinity'') = ''Routine Care''"
proof -
  have a: "parseFloat ''2.50'' = Fin 2.5" by (simp add: parse_defs)
  have b: "parseFloat ''0.90'' = Fin 0.9" by (simp add: parse_defs)
  have c: "parseFloat ''0.07'' = Fin 0.07" by (simp add: parse_defs)
  have d: "parseFloat ''Infinity'' = PInf" by (simp add: parse_defs)
  have e: "parseFloat ''-Infinity'' = NInf" by (simp add: parse_defs)
  show ?thesis
    using a b c d e
      recommendation_thresholds [of "''2.50''" "2.5"]
      recommendation_thresholds [of "''0.90''" "0.9"]
      recommendation_thresholds [of "''0.07''" "0.07"]
      recommendation_thresholds [of "''Infinity''" 0]
      recommendation_thresholds [of "''-Infinity''" 0]
    by simp
qed

subsection \<open>The incidence guard\<close>

text \<open>
  Claim C3, as amended. \<open>sepsisRisk\<close> returns \<open>0.00\<close> whenever the incidence string
  reads as \<open>NaN\<close> (non-numeric input), as negative infinity or as a finite number that
  is not positive, whatever the five category codes are; so it does for the inputs
  \<open>0\<close>, \<open>-1\<close>, \<open>NaN\<close>, \<open>abc\<close>, the empty string and \<open>-Infinity\<close>. Positive
  infinity is not rejected by the guard.
\<close>

theorem sepsisRisk_zero_fallback:
  "(parseFloat incidence = NaN \<or> parseFloat incidence = NInf \<or>
      (\<exists>x. parseFloat incidence = Fin x \<and> x \<le> 0) \<longrightarrow>
      sepsisRisk big incidence ga t r g i = ''0.00'') \<and>
   sepsisRisk big ''0'' ga t r g i = ''0.00'' \<and>
   sepsisRisk big ''-1'' ga t r g i = ''0.00'' \<and>
   sepsisRisk big ''NaN'' ga t r g i = ''0.00'' \<and>
   sepsisRisk big ''abc'' ga t r g i = ''0.00'' \<and>
   sepsisRisk big '''' ga t r g i = ''0.00'' \<and>
   sepsisRisk big ''-Infinity'' ga t r g i = ''0.00''"
proof -
  have general: "parseFloat incidence = NaN \<or> parseFloat incidence = NInf \<or>
      (\<exists>x. parseFloat incidence = Fin x \<and> x \<le> 0) \<longrightarrow>
      sepsisRisk big incidence ga t r g i = ''0.00''"
    by (auto intro!: sepsisRisk_rejected)
  have p: "parseFloat ''0'' = Fin 0" "parseFloat ''-1'' = Fin (- 1)"
    "parseFloat ''NaN'' = NaN" "parseFloat ''abc'' = NaN" "parseFloat '''' = NaN"
    "parseFloat ''-Infinity'' = NInf"
    by (simp_all add: parse_defs)
  have "sepsisRisk big ''0'' ga t r g i = ''0.00''"
    and "sepsisRisk big ''-1'' ga t r g i = ''0.00''"
    and "sepsisRisk big ''NaN'' ga t r g i = ''0.00''"
    and "sepsisRisk big ''abc'' ga t r g i = ''0.00''"
    and "sepsisRisk big '''' ga t r g i = ''0.00''"
    and "sepsisRisk big ''-Infinity'' ga t r g i = ''0.00''"
    by (simp_all add: sepsisRisk_rejected p)
  with general show ?thesis by blast
qed

theorem sepsisRisk_zero_fallback_witness:
  "parseFloat ''-2.5'' = Fin (- 2.5) \<and> (- 2.5 :: rat) \<le> 0 \<and>
   sepsisRisk (\<lambda>_. []) ''-2.5'' (geq_sign @ ''42'') ''<38'' ''<12'' ''positive''
     ''adequate_pen_amp'' = ''0.00''"
proof -
  have p: "parseFloat ''-2.5'' = Fin (- 2.5)" by (simp add: parse_defs)
  have "\<exists>x. parseFloat ''-2.5'' = Fin x \<and> x \<le> 0" using p by simp
  with p show ?thesis
    using sepsisRisk_zero_fallback
      [of "''-2.5''" "\<lambda>_. []" "geq_sign @ ''42''" "''<38''" "''<12''" "''positive''"
        "''adequate_pen_amp''"]
    by simp
qed

text \<open>
  The claim as stated also asks for \<open>0.00\<close> at every value that is not finite. The
  string \<open>Infinity\<close> reads as positive infinity, passes the guard
  \<open>isNaN(x) || x <= 0\<close>, and the result is \<open>NaN\<close>.
\<close>

theorem sepsisRisk_infinite_incidence_counterexample:
  "parseFloat ''Infinity'' = PInf \<and>
   sepsisRisk (\<lambda>_. []) ''Infinity'' (geq_sign @ ''42'') ''<38'' ''<12'' ''negative''
     ''no_iap_needed'' = ''NaN''"
  by (simp add: sepsisRisk_def parse_defs priorOdds_def num_sub_def combinedLR_def lrIap_def
      table_defs toFixed2_def)

subsection \<open>Suppression of the IAP factor\<close>

text \<open>
  Claim C4. When the GBS status is not \<open>positive\<close>, the result is the same as with
  \<open>iap = no_iap_needed\<close>, for every IAP code and every setting of the other inputs.
  The effective IAP likelihood ratio is 1.0 when \<open>iap\<close> is \<open>no_iap_needed\<close> or the
  GBS status is not \<open>positive\<close>, and the table's value for the IAP code otherwise.
  That table value is 1.0 as well for the code \<open>inadequate_or_no\<close>, and for no other
  code: the effective ratio is 1.0 in these three cases only.
\<close>

theorem iap_suppression:
  "(g \<noteq> ''positive'' \<longrightarrow>
      sepsisRisk big incidence ga t r g i = sepsisRisk big incidence ga t r g ''no_iap_needed'') \<and>
   (i = ''no_iap_needed'' \<or> g \<noteq> ''positive'' \<longrightarrow> lrIap g i = Some 1.0) \<and>
   (\<not> (i = ''no_iap_needed'' \<or> g \<noteq> ''positive'') \<longrightarrow> lrIap g i = map_of LR_iap i) \<and>
   (lrIap g i = Some 1.0 \<longleftrightarrow>
      i = ''no_iap_needed'' \<or> g \<noteq> ''positive'' \<or> i = ''inadequate_or_no'')"
proof -
  have "combinedLR ga t r g i = combinedLR ga t r g ''no_iap_needed''" if "g \<noteq> ''positive''"
    using that by (simp add: combinedLR_def lrIap_def)
  then have "g \<noteq> ''positive'' \<longrightarrow>
      sepsisRisk big incidence ga t r g i = sepsisRisk big incidence ga t r g ''no_iap_needed''"
    by (simp add: sepsisRisk_def Let_def)
  moreover have "i = ''no_iap_needed'' \<or> g \<noteq> ''positive'' \<longrightarrow> lrIap g i = Some 1.0"
    by (simp add: lrIap_def)
  moreover have "\<not> (i = ''no_iap_needed'' \<or> g \<noteq> ''positive'') \<longrightarrow> lrIap g i = map_of LR_iap i"
    by (simp add: lrIap_def)
  moreover have "lrIap g i = Some 1.0 \<longleftrightarrow>
      i = ''no_iap_needed'' \<or> g \<noteq> ''positive'' \<or> i = ''inadequate_or_no''"
    by (simp add: lrIap_def LR_iap_def)
  ultimately show ?thesis by blast
qed

theorem iap_suppression_witness:
  "''negative'' \<noteq> ''positive'' \<and>
   sepsisRisk (\<lambda>_. []) ''0.5'' (geq_sign @ ''42'') ''<38'' ''<12'' ''negative'' ''adequate_pen_amp'' =
   sepsisRisk (\<lambda>_. []) ''0.5'' (geq_sign @ ''42'') ''<38'' ''<12'' ''negative'' ''no_iap_needed'' \<and>
   lrIap ''negative'' ''adequate_pen_amp'' = Some 1.0 \<and>
   lrIap ''positive'' ''no_iap_needed'' = Some 1.0 \<and>
   \<not> (''adequate_pen_amp'' = ''no_iap_needed'' \<or> ''positive'' \<noteq> ''positive'') \<and>
   map_of LR_iap ''adequate_pen_amp'' = Some 0.2 \<and>
   lrIap ''positive'' ''adequate_pen_amp'' = Some 0.2"
proof -
  have tbl: "map_of LR_iap ''adequate_pen_amp'' = Some 0.2" by (simp add: table_defs)
  have h: "''negative'' \<noteq> ''positive''"
    "\<not> (''adequate_pen_amp'' = ''no_iap_needed'' \<or> ''positive'' \<noteq> ''positive'')"
    by simp_all
  note off = iap_suppression [where g = "''negative''" and big = "\<lambda>_. []" and incidence = "''0.5''"
      and ga = "geq_sign @ ''42''" and t = "''<38''" and r = "''<12''" and i = "''adequate_pen_amp''"]
  note none = iap_suppression [where g = "''positive''" and big = "\<lambda>_. []" and incidence = "''0.5''"
      and ga = "geq_sign @ ''42''" and t = "''<38''" and r = "''<12''" and i = "''no_iap_needed''"]
  note on = iap_suppression [where g = "''positive''" and big = "\<lambda>_. []" and incidence = "''0.5''"
      and ga = "geq_sign @ ''42''" and t = "''<38''" and r = "''<12''" and i = "''adequate_pen_amp''"]
  from off h(1) have c1: "sepsisRisk (\<lambda>_. []) ''0.5'' (geq_sign @ ''42'') ''<38'' ''<12'' ''negative''
      ''adequate_pen_amp'' =
    sepsisRisk (\<lambda>_. []) ''0.5'' (geq_sign @ ''42'') ''<38'' ''<12'' ''negative'' ''no_iap_needed''"
    and c2: "lrIap ''negative'' ''adequate_pen_amp'' = Some 1.0"
    by blast+
  from none have c3: "lrIap ''positive'' ''no_iap_needed'' = Some 1.0" by blast
  from on h(2) have "lrIap ''positive'' ''adequate_pen_amp'' = map_of LR_iap ''adequate_pen_amp''"
    by blast
  then have c4: "lrIap ''positive'' ''adequate_pen_amp'' = Some 0.2" by (simp only: tbl)
  show ?thesis by (intro conjI) (rule h tbl c1 c2 c3 c4)+
qed

subsection \<open>Lookups in the table\<close>

lemma map_of_positive:
  assumes "list_all (\<lambda>(k, v). 0 < v) tbl" and "k \<in> set (map fst tbl)"
  shows "\<exists>v. map_of tbl k = Some v \<and> (0::rat) < v"
  using assms by (induction tbl) auto

lemma enumerated_gestationalAge:
  "ga \<in> set (map fst LR_gestationalAge) \<Longrightarrow> \<exists>v. map_of LR_gestationalAge ga = Some v \<and> 0 < v"
  by (rule map_of_positive) (simp_all add: LR_gestationalAge_def)

lemma enumerated_highestTemp:
  "t \<in> set (map fst LR_highestTemp) \<Longrightarrow> \<exists>v. map_of LR_highestTemp t = Some v \<and> 0 < v"
  by (rule map_of_positive) (simp_all add: LR_highestTemp_def)

lemma enumerated_rom:
  "r \<in> set (map fst LR_rom) \<Longrightarrow> \<exists>v. map_of LR_rom r = Some v \<and> 0 < v"
  by (rule map_of_positive) (simp_all add: LR_rom_def)

lemma enumerated_gbsStatus:
  "g \<in> set (map fst LR_gbsStatus) \<Longrightarrow> \<exists>v. map_of LR_gbsStatus g = Some v \<and> 0 < v"
  by (rule map_of_positive) (simp_all add: LR_gbsStatus_def)

lemma enumerated_iap:
  "i \<in> set (map fst LR_iap) \<Longrightarrow> \<exists>v. map_of LR_iap i = Some v \<and> 0 < v"
  by (rule map_of_positive) (simp_all add: LR_iap_def)

lemma enumerated_lrIap:
  "i \<in> set (map fst LR_iap) \<Longrightarrow> \<exists>v. lrIap g i = Some v \<and> 0 < v"
  using enumerated_iap [of i] by (auto simp: lrIap_def)

lemma not_enumerated:
  "k \<notin> set (map fst tbl) \<Longrightarrow> map_of tbl k = None"
  by (simp add: map_of_eq_None_iff)

text \<open>
  Claim C8, as amended. A lookup by an enumerated code finds a positive likelihood ratio.
  A lookup by any other code finds nothing and raises nothing: when the incidence passes
  the guard and one of the gestational-age, temperature, ROM or GBS codes is not
  enumerated, or the GBS status is \<open>positive\<close> and the IAP code is not enumerated, the
  missing value becomes \<open>NaN\<close>, \<open>sepsisRisk\<close> returns the string \<open>NaN\<close> and the
  recommendation is Routine Care.
\<close>

theorem lookup_of_codes:
  "(ga \<in> set (map fst LR_gestationalAge) \<longrightarrow> (\<exists>v. map_of LR_gestationalAge ga = Some v \<and> 0 < v)) \<and>
   (t \<in> set (map fst LR_highestTemp) \<longrightarrow> (\<exists>v. map_of LR_highestTemp t = Some v \<and> 0 < v)) \<and>
   (r \<in> set (map fst LR_rom) \<longrightarrow> (\<exists>v. map_of LR_rom r = Some v \<and> 0 < v)) \<and>
   (g \<in> set (map fst LR_gbsStatus) \<longrightarrow> (\<exists>v. map_of LR_gbsStatus g = Some v \<and> 0 < v)) \<and>
   (i \<in> set (map fst LR_iap) \<longrightarrow> (\<exists>v. map_of LR_iap i = Some v \<and> 0 < v)) \<and>
   ((parseFloat incidence = PInf \<or> (\<exists>x. parseFloat incidence = Fin x \<and> 0 < x)) \<and>
    (ga \<notin> set (map fst LR_gestationalAge) \<or> t \<notin> set (map fst LR_highestTemp) \<or>
     r \<notin> set (map fst LR_rom) \<or> g \<notin> set (map fst LR_gbsStatus) \<or>
     (g = ''positive'' \<and> i \<notin> set (map fst LR_iap))) \<longrightarrow>
    sepsisRisk big incidence ga t r g i = ''NaN'' \<and>
    rec_text (recommendation (sepsisRisk big incidence ga t r g i)) = ''Routine Care'')"
proof -
  have propagate: "sepsisRisk big incidence ga t r g i = ''NaN'' \<and>
      rec_text (recommendation (sepsisRisk big incidence ga t r g i)) = ''Routine Care''"
    if guard: "parseFloat incidence = PInf \<or> (\<exists>x. parseFloat incidence = Fin x \<and> 0 < x)"
      and missing: "ga \<notin> set (map fst LR_gestationalAge) \<or> t \<notin> set (map fst LR_highestTemp) \<or>
        r \<notin> set (map fst LR_rom) \<or> g \<notin> set (map fst LR_gbsStatus) \<or>
        (g = ''positive'' \<and> i \<notin> set (map fst LR_iap))"
  proof -
    from guard have acc: "\<not> (isNaN (parseFloat incidence) \<or> num_le (parseFloat incidence) (Fin 0))"
      by auto
    have iap_missing: "lrIap g i = None" if "g = ''positive''" and "i \<notin> set (map fst LR_iap)"
    proof -
      from that(2) have "i \<noteq> ''no_iap_needed''" by (auto simp: LR_iap_def)
      with that show ?thesis by (simp add: lrIap_def not_enumerated)
    qed
    from missing have "map_of LR_gestationalAge ga = None \<or> map_of LR_highestTemp t = None \<or>
        map_of LR_rom r = None \<or> map_of LR_gbsStatus g = None \<or> lrIap g i = None"
    proof (elim disjE conjE)
      assume "ga \<notin> set (map fst LR_gestationalAge)"
      from not_enumerated [OF this] show ?thesis by simp
    next
      assume "t \<notin> set (map fst LR_highestTemp)"
      from not_enumerated [OF this] show ?thesis by simp
    next
      assume "r \<notin> set (map fst LR_rom)"
      from not_enumerated [OF this] show ?thesis by simp
    next
      assume "g \<notin> set (map fst LR_gbsStatus)"
      from not_enumerated [OF this] show ?thesis by simp
    next
      assume "g = ''positive''" and "i \<notin> set (map fst LR_iap)"
      from iap_missing [OF this] show ?thesis by simp
    qed
    then have "combinedLR ga t r g i = NaN" by (rule combinedLR_NaN)
    with acc have "sepsisRisk big incidence ga t r g i = ''NaN''" by (rule sepsisRisk_NaN)
    then show ?thesis by (simp add: recommendation_NaN_string)
  qed
  show ?thesis
  proof (intro conjI impI)
    show "\<exists>v. map_of LR_gestationalAge ga = Some v \<and> 0 < v" if "ga \<in> set (map fst LR_gestationalAge)"
      using that by (rule enumerated_gestationalAge)
    show "\<exists>v. map_of LR_highestTemp t = Some v \<and> 0 < v" if "t \<in> set (map fst LR_highestTemp)"
      using that by (rule enumerated_highestTemp)
    show "\<exists>v. map_of LR_rom r = Some v \<and> 0 < v" if "r \<in> set (map fst LR_rom)"
      using that by (rule enumerated_rom)
    show "\<exists>v. map_of LR_gbsStatus g = Some v \<and> 0 < v" if "g \<in> set (map fst LR_gbsStatus)"
      using that by (rule enumerated_gbsStatus)
    show "\<exists>v. map_of LR_iap i = Some v \<and> 0 < v" if "i \<in> set (map fst LR_iap)"
      using that by (rule enumerated_iap)
  next
    assume h: "(parseFloat incidence = PInf \<or> (\<exists>x. parseFloat incidence = Fin x \<and> 0 < x)) \<and>
      (ga \<notin> set (map fst LR_gestationalAge) \<or> t \<notin> set (map fst LR_highestTemp) \<or>
       r \<notin> set (map fst LR_rom) \<or> g \<notin> set (map fst LR_gbsStatus) \<or>
       (g = ''positive'' \<and> i \<notin> set (map fst LR_iap)))"
    note both = propagate [OF conjunct1 [OF h] conjunct2 [OF h]]
    show "sepsisRisk big incidence ga t r g i = ''NaN''"
      using both by (rule conjunct1)
    show "rec_text (recommendation (sepsisRisk big incidence ga t r g i)) = ''Routine Care''"
      using both by (rule conjunct2)
  qed
qed

theorem lookup_of_codes_witness:
  "(\<exists>v. map_of LR_gestationalAge ''39 0/7-39 6/7'' = Some v \<and> 0 < v) \<and>
   (\<exists>v. map_of LR_highestTemp ''<38'' = Some v \<and> 0 < v) \<and>
   (\<exists>v. map_of LR_rom ''12-18'' = Some v \<and> 0 < v) \<and>
   (\<exists>v. map_of LR_gbsStatus ''unknown'' = Some v \<and> 0 < v) \<and>
   (\<exists>v. map_of LR_iap ''adequate_cefazolin'' = Some v \<and> 0 < v) \<and>
   parseFloat ''0.5'' = Fin 0.5 \<and> ''43'' \<notin> set (map fst LR_gestationalAge) \<and>
   sepsisRisk (\<lambda>_. []) ''0.5'' ''43'' ''<38'' ''12-18'' ''unknown'' ''adequate_cefazolin'' = ''NaN'' \<and>
   rec_text (recommendation
     (sepsisRisk (\<lambda>_. []) ''0.5'' ''43'' ''<38'' ''12-18'' ''unknown'' ''adequate_cefazolin'')) =
     ''Routine Care''"
proof -
  have p: "parseFloat ''0.5'' = Fin 0.5" by (simp add: parse_defs)
  then have g: "parseFloat ''0.5'' = PInf \<or> (\<exists>x. parseFloat ''0.5'' = Fin x \<and> 0 < x)"
    by (intro disjI2 exI [of _ "0.5"]) simp
  have m: "''43'' \<notin> set (map fst LR_gestationalAge)" by (simp add: table_defs)
  have e: "''39 0/7-39 6/7'' \<in> set (map fst LR_gestationalAge)" "''<38'' \<in> set (map fst LR_highestTemp)"
    "''12-18'' \<in> set (map fst LR_rom)" "''unknown'' \<in> set (map fst LR_gbsStatus)"
    "''adequate_cefazolin'' \<in> set (map fst LR_iap)"
    by (simp_all add: table_defs)
  note enum = lookup_of_codes [where ga = "''39 0/7-39 6/7''" and t = "''<38''" and r = "''12-18''"
      and g = "''unknown''" and i = "''adequate_cefazolin''"]
  note miss = lookup_of_codes [where incidence = "''0.5''" and big = "\<lambda>_. []" and ga = "''43''"
      and t = "''<38''" and r = "''12-18''" and g = "''unknown''" and i = "''adequate_cefazolin''"]
  have "(\<exists>v. map_of LR_gestationalAge ''39 0/7-39 6/7'' = Some v \<and> 0 < v) \<and>
   (\<exists>v. map_of LR_highestTemp ''<38'' = Some v \<and> 0 < v) \<and>
   (\<exists>v. map_of LR_rom ''12-18'' = Some v \<and> 0 < v) \<and>
   (\<exists>v. map_of LR_gbsStatus ''unknown'' = Some v \<and> 0 < v) \<and>
   (\<exists>v. map_of LR_iap ''adequate_cefazolin'' = Some v \<and> 0 < v)"
    using enum e by blast
  moreover have "sepsisRisk (\<lambda>_. []) ''0.5'' ''43'' ''<38'' ''12-18'' ''unknown'' ''adequate_cefazolin'' = ''NaN'' \<and>
   rec_text (recommendation
     (sepsisRisk (\<lambda>_. []) ''0.5'' ''43'' ''<38'' ''12-18'' ''unknown'' ''adequate_cefazolin'')) =
     ''Routine Care''"
    using miss g m by blast
  ultimately show ?thesis using p m by blast
qed

text \<open>
  The claim as stated asks for a loud failure at a code that is not enumerated. The source
  has no \<open>throw\<close> and no assertion: with the gestational-age code \<open>43\<close> the call returns
  normally, with the string \<open>NaN\<close>, and the recommendation shown is Routine Care.
\<close>

theorem lookup_fails_silently_counterexample:
  "map_of LR_gestationalAge ''43'' = None \<and>
   sepsisRisk (\<lambda>_. []) ''0.5'' ''43'' ''<38'' ''<12'' ''negative'' ''no_iap_needed'' = ''NaN'' \<and>
   rec_text (recommendation
     (sepsisRisk (\<lambda>_. []) ''0.5'' ''43'' ''<38'' ''<12'' ''negative'' ''no_iap_needed'')) =
     ''Routine Care''"
proof -
  have a: "map_of LR_gestationalAge ''43'' = None" by (simp add: table_defs)
  have p: "parseFloat ''0.5'' = Fin 0.5" by (simp add: parse_defs)
  have "combinedLR ''43'' ''<38'' ''<12'' ''negative'' ''no_iap_needed'' = NaN"
    by (simp add: combinedLR_NaN a)
  then have "sepsisRisk (\<lambda>_. []) ''0.5'' ''43'' ''<38'' ''<12'' ''negative'' ''no_iap_needed'' = ''NaN''"
    by (simp add: sepsisRisk_NaN p)
  with a show ?thesis by (simp add: recommendation_NaN_string)
qed

subsection \<open>The GBS/IAP synchronisation\<close>

lemma invariant_mounted: "gbs_iap_invariant mounted"
  by (simp add: gbs_iap_invariant_def mounted_def gbs_effect_def initial_state_def)

lemma invariant_step:
  assumes "gbs_iap_invariant s" and "step s e = Some s'"
  shows "gbs_iap_invariant s'"
proof (cases e)
  case (SetIap v)
  with assms show ?thesis
    by (auto simp: step_def commit_def gbs_iap_invariant_def split: if_splits)
next
  case (SetGbsStatus v)
  with assms show ?thesis
    by (auto simp: step_def commit_def gbs_effect_def gbs_iap_invariant_def split: if_splits)
next
  case HandleReset
  with assms show ?thesis
    by (auto simp: step_def commit_def gbs_effect_def gbs_iap_invariant_def split: if_splits)
qed (use assms in \<open>auto simp: step_def commit_def gbs_iap_invariant_def\<close>)

lemma invariant_run:
  assumes "gbs_iap_invariant s" and "run s es = Some s'"
  shows "gbs_iap_invariant s'"
  using assms
proof (induction es arbitrary: s)
  case Nil
  then show ?case by simp
next
  case (Cons e es)
  from Cons.prems(2) obtain s1 where s1: "step s e = Some s1" and rest: "run s1 es = Some s'"
    by (auto split: option.splits)
  from invariant_step [OF Cons.prems(1) s1] have "gbs_iap_invariant s1" .
  from Cons.IH [OF this rest] show ?case .
qed

text \<open>
  Claim C9. As a transition function on the form state: when the GBS status changes to a
  value other than \<open>positive\<close>, the same step resets \<open>iap\<close> to \<open>no_iap_needed\<close>;
  every settled state reachable from the mounted form therefore has
  \<open>iap = no_iap_needed\<close> whenever its GBS status is not \<open>positive\<close>; and a change of
  \<open>iap\<close>, by its selector or by the effect, leaves the GBS status as it was.
\<close>

theorem gbs_iap_synchronisation:
  "(v \<noteq> ''positive'' \<and> v \<noteq> s_gbsStatus s0 \<longrightarrow>
      (\<exists>s1. step s0 (SetGbsStatus v) = Some s1 \<and> s_gbsStatus s1 = v \<and>
            s_iap s1 = ''no_iap_needed'')) \<and>
   (run mounted es = Some s \<longrightarrow> s_gbsStatus s \<noteq> ''positive'' \<longrightarrow> s_iap s = ''no_iap_needed'') \<and>
   (step s2 (SetIap w) = Some s3 \<longrightarrow> s_gbsStatus s3 = s_gbsStatus s2) \<and>
   s_gbsStatus (gbs_effect s4) = s_gbsStatus s4"
proof (intro conjI impI)
  assume "v \<noteq> ''positive'' \<and> v \<noteq> s_gbsStatus s0"
  then show "\<exists>s1. step s0 (SetGbsStatus v) = Some s1 \<and> s_gbsStatus s1 = v \<and>
      s_iap s1 = ''no_iap_needed''"
    by (simp add: step_def commit_def gbs_effect_def)
next
  assume "run mounted es = Some s" and "s_gbsStatus s \<noteq> ''positive''"
  with invariant_run [OF invariant_mounted] show "s_iap s = ''no_iap_needed''"
    by (simp add: gbs_iap_invariant_def)
next
  assume "step s2 (SetIap w) = Some s3"
  then show "s_gbsStatus s3 = s_gbsStatus s2"
    by (auto simp: step_def commit_def split: if_splits)
next
  show "s_gbsStatus (gbs_effect s4) = s_gbsStatus s4"
    by (simp add: gbs_effect_def)
qed

theorem gbs_iap_synchronisation_witness:
  "''negative'' \<noteq> ''positive'' \<and>
   ''negative'' \<noteq> s_gbsStatus (mounted\<lparr>s_gbsStatus := ''positive'', s_iap := ''adequate_pen_amp''\<rparr>) \<and>
   step (mounted\<lparr>s_gbsStatus := ''positive'', s_iap := ''adequate_pen_amp''\<rparr>)
     (SetGbsStatus ''negative'') = Some mounted \<and>
   s_gbsStatus mounted = ''negative'' \<and> s_iap mounted = ''no_iap_needed'' \<and>
   run mounted [SetGbsStatus ''positive'', SetIap ''adequate_pen_amp'', SetGbsStatus ''unknown''] =
     Some (mounted\<lparr>s_gbsStatus := ''unknown''\<rparr>) \<and>
   s_gbsStatus (mounted\<lparr>s_gbsStatus := ''unknown''\<rparr>) \<noteq> ''positive'' \<and>
   s_iap (mounted\<lparr>s_gbsStatus := ''unknown''\<rparr>) = ''no_iap_needed'' \<and>
   step (mounted\<lparr>s_gbsStatus := ''positive''\<rparr>) (SetIap ''adequate_cefazolin'') =
     Some (mounted\<lparr>s_gbsStatus := ''positive'', s_iap := ''adequate_cefazolin''\<rparr>) \<and>
   s_gbsStatus (mounted\<lparr>s_gbsStatus := ''positive'', s_iap := ''adequate_cefazolin''\<rparr>) =
     s_gbsStatus (mounted\<lparr>s_gbsStatus := ''positive''\<rparr>)"
proof -
  let ?given = "mounted\<lparr>s_gbsStatus := ''positive'', s_iap := ''adequate_pen_amp''\<rparr>"
  let ?chosen = "mounted\<lparr>s_gbsStatus := ''positive'', s_iap := ''adequate_cefazolin''\<rparr>"
  let ?es = "[SetGbsStatus ''positive'', SetIap ''adequate_pen_amp'', SetGbsStatus ''unknown'']"
  have h1: "''negative'' \<noteq> ''positive''" "''negative'' \<noteq> s_gbsStatus ?given"
    by simp_all
  have m: "s_gbsStatus mounted = ''negative''" "s_iap mounted = ''no_iap_needed''"
    by (simp_all add: mounted_def gbs_effect_def initial_state_def)
  have st1: "step ?given (SetGbsStatus ''negative'') = Some mounted"
    by (simp add: step_def commit_def gbs_effect_def mounted_def initial_state_def)
  have r: "run mounted ?es = Some (mounted\<lparr>s_gbsStatus := ''unknown''\<rparr>)"
    by (simp add: step_def commit_def gbs_effect_def mounted_def initial_state_def)
  have h2: "s_gbsStatus (mounted\<lparr>s_gbsStatus := ''unknown''\<rparr>) \<noteq> ''positive''"
    by simp
  have st2: "step (mounted\<lparr>s_gbsStatus := ''positive''\<rparr>) (SetIap ''adequate_cefazolin'') =
      Some ?chosen"
    by (simp add: step_def commit_def)
  note inst = gbs_iap_synchronisation [where es = ?es
      and s = "mounted\<lparr>s_gbsStatus := ''unknown''\<rparr>"
      and ?s2.0 = "mounted\<lparr>s_gbsStatus := ''positive''\<rparr>" and w = "''adequate_cefazolin''"
      and ?s3.0 = ?chosen]
  from inst r h2 have c2: "s_iap (mounted\<lparr>s_gbsStatus := ''unknown''\<rparr>) = ''no_iap_needed''"
    by blast
  from inst st2 have c3: "s_gbsStatus ?chosen = s_gbsStatus (mounted\<lparr>s_gbsStatus := ''positive''\<rparr>)"
    by blast
  show ?thesis by (intro conjI) (rule h1 st1 m r h2 c2 st2 c3)+
qed

subsection \<open>Digits, \<open>toFixed\<close> and \<open>parseFloat\<close>\<close>

lemma digit_cases:
  assumes "d < (10::nat)"
  obtains "d = 0" | "d = 1" | "d = 2" | "d = 3" | "d = 4" | "d = 5" | "d = 6" | "d = 7"
    | "d = 8" | "d = 9"
  using assms by atomize_elim presburger

lemma digit_char_is_digit: "d < 10 \<Longrightarrow> is_digit (digit_char d)"
  by (erule digit_cases) (simp_all add: digit_char_def is_digit_def)

lemma digit_val_digit_char: "d < 10 \<Longrightarrow> digit_val (digit_char d) = d"
  by (erule digit_cases) (simp_all add: digit_char_def digit_val_def)

lemma is_digit_not_special:
  assumes "is_digit c"
  shows "\<not> ws1 c" and "\<not> ws2 c d" and "\<not> ws3 c d e" and "c \<noteq> CHR ''+''" and "c \<noteq> CHR ''-''"
    and "c \<noteq> CHR ''I''" and "c \<noteq> CHR ''.''"
  using assms by (auto simp: is_digit_def ws1_def ws2_def ws3_def)

lemma nat_digits_all: "list_all is_digit (nat_digits n)"
proof (induction n rule: nat_digits.induct)
  case (1 n)
  show ?case
  proof (cases "n < 10")
    case True
    then show ?thesis by (simp add: nat_digits.simps [of n] digit_char_is_digit)
  next
    case False
    with 1 show ?thesis by (simp add: nat_digits.simps [of n] digit_char_is_digit)
  qed
qed

lemma nat_digits_nonempty: "nat_digits n \<noteq> []"
  by (simp add: nat_digits.simps [of n])

lemma digits_val_snoc: "digits_val (ds @ [c]) = 10 * digits_val ds + digit_val c"
  by (simp add: digits_val_def)

lemma digits_val_nat_digits: "digits_val (nat_digits n) = n"
proof (induction n rule: nat_digits.induct)
  case (1 n)
  show ?case
  proof (cases "n < 10")
    case True
    then show ?thesis
      by (simp add: nat_digits.simps [of n] digits_val_def digit_val_digit_char)
  next
    case False
    with 1 have "digits_val (nat_digits (n div 10)) = n div 10" by simp
    with False show ?thesis
      by (simp add: nat_digits.simps [of n] digits_val_snoc digit_val_digit_char)
  qed
qed

lemma nat_digits_small: "n < 10 \<Longrightarrow> nat_digits n = [digit_char n]"
  by (simp add: nat_digits.simps [of n])

lemma nat_digits_step: "10 \<le> n \<Longrightarrow> nat_digits n = nat_digits (n div 10) @ [digit_char (n mod 10)]"
  by (simp add: nat_digits.simps [of n])

lemma nat_digits_two:
  assumes "10 \<le> n" and "n < 100"
  shows "nat_digits n = [digit_char (n div 10), digit_char (n mod 10)]"
proof -
  from assms have "n div 10 < 10" by simp
  with assms show ?thesis by (simp add: nat_digits_step nat_digits_small)
qed

lemma nat_digits_hundred:
  assumes "100 \<le> n"
  shows "nat_digits n =
    nat_digits (n div 100) @ [digit_char (n div 10 mod 10), digit_char (n mod 10)]"
proof -
  from assms have "10 \<le> n" and "10 \<le> n div 10" by simp_all
  then have "nat_digits n = (nat_digits (n div 10 div 10) @ [digit_char (n div 10 mod 10)]) @
      [digit_char (n mod 10)]"
    by (simp add: nat_digits_step [of n] nat_digits_step [of "n div 10"])
  moreover have "n div 10 div 10 = n div 100" by (simp add: div_mult2_eq [symmetric])
  ultimately show ?thesis by simp
qed

lemma pad_point:
  "(let n = h; m = (if n = 0 then ''0'' else nat_digits n); k = length m;
        m' = (if k \<le> 2 then replicate (3 - k) CHR ''0'' @ m else m); k' = length m'
    in take (k' - 2) m' @ ''.'' @ drop (k' - 2) m') =
   nat_digits (h div 100) @ ''.'' @ [digit_char (h div 10 mod 10), digit_char (h mod 10)]"
proof -
  consider "h = 0" | "0 < h" "h < 10" | "10 \<le> h" "h < 100" | "100 \<le> h" by linarith
  then show ?thesis
  proof cases
    case 1
    then show ?thesis by (simp add: nat_digits_small digit_char_def)
  next
    case 2
    then show ?thesis by (simp add: nat_digits_small digit_char_def)
  next
    case 3
    then have "h div 100 = 0" and "h div 10 mod 10 = h div 10" by simp_all
    with 3 show ?thesis by (simp add: nat_digits_two nat_digits_small digit_char_def)
  next
    case 4
    have "2 < length (nat_digits h)"
      using nat_digits_nonempty [of "h div 100"] by (simp add: nat_digits_hundred [OF 4] Suc_le_eq)
    with 4 show ?thesis
      by (simp add: Let_def nat_digits_hundred [OF 4])
  qed
qed

lemma toFixed2_nonneg:
  assumes "0 \<le> x" and "x < 10 ^ 21"
  shows "toFixed2 big (Fin x) = spec_fixed2 x"
proof -
  from assms have "\<not> x < 0" and "\<not> 10 ^ 21 \<le> x" by simp_all
  then have "toFixed2 big (Fin x) =
    (let n = hundredths x; m = (if n = 0 then ''0'' else nat_digits n); k = length m;
        m' = (if k \<le> 2 then replicate (3 - k) CHR ''0'' @ m else m); k' = length m'
     in take (k' - 2) m' @ ''.'' @ drop (k' - 2) m')"
    by (simp add: toFixed2_def hundredths_def Let_def)
  then show ?thesis by (simp only: pad_point spec_fixed2_def)
qed


lemma not_digit_point: "\<not> is_digit CHR ''.''"
  by (simp add: is_digit_def)

lemma takeWhile_digits_point:
  "list_all is_digit ds \<Longrightarrow> takeWhile is_digit (ds @ CHR ''.'' # r) = ds"
  by (induction ds) (simp_all add: not_digit_point)

lemma dropWhile_digits_point:
  "list_all is_digit ds \<Longrightarrow> dropWhile is_digit (ds @ CHR ''.'' # r) = CHR ''.'' # r"
  by (induction ds) (simp_all add: not_digit_point)

lemma trimStart_digit: "is_digit c \<Longrightarrow> trimStart (c # cs) = c # cs"
  by (simp add: is_digit_not_special split: list.splits)

lemma no_infinity: "c \<noteq> CHR ''I'' \<Longrightarrow> take 8 (c # r) \<noteq> ''Infinity''"
  by simp

lemma strUnsignedDecimalLiteral_fixed2:
  assumes "ds \<noteq> []" and "list_all is_digit ds" and "is_digit a" and "is_digit b"
  shows "strUnsignedDecimalLiteral (ds @ ''.'' @ [a, b]) =
         Fin (of_nat (digits_val (ds @ [a, b])) / 100)"
proof -
  define s where "s = ds @ ''.'' @ [a, b]"
  from assms(1) obtain c cs where ds: "ds = c # cs" by (cases ds) auto
  with assms(2) have "is_digit c" by simp
  then have "c \<noteq> CHR ''I''" by (rule is_digit_not_special)
  then have "take 8 (c # (cs @ ''.'' @ [a, b])) \<noteq> ''Infinity''" by (rule no_infinity)
  then have no_inf: "take 8 s \<noteq> ''Infinity''"
    by (simp only: s_def ds append_Cons simp_thms)
  have ip: "takeWhile is_digit s = ds"
    using takeWhile_digits_point [OF assms(2)] by (simp add: s_def)
  have r1: "dropWhile is_digit s = CHR ''.'' # [a, b]"
    using dropWhile_digits_point [OF assms(2)] by (simp add: s_def)
  have "strUnsignedDecimalLiteral s = Fin (of_nat (digits_val (ds @ [a, b])) / 100)"
    by (simp add: strUnsignedDecimalLiteral_def no_inf ip r1 assms exponent_part_def scale10_def)
  then show ?thesis by (simp only: s_def)
qed

lemma parseFloat_digits_first:
  assumes "is_digit c"
  shows "parseFloat (c # cs) = strUnsignedDecimalLiteral (c # cs)"
  using is_digit_not_special (4,5) [OF assms]
  by (simp add: parseFloat_def trimStart_digit [OF assms] del: trimStart.simps)

lemma hundredths_digits:
  "digits_val (nat_digits (h div 100) @ [digit_char (h div 10 mod 10), digit_char (h mod 10)]) = h"
proof -
  have "digits_val ((nat_digits (h div 100) @ [digit_char (h div 10 mod 10)]) @ [digit_char (h mod 10)]) =
      10 * (10 * (h div 100) + h div 10 mod 10) + h mod 10"
    by (simp only: digits_val_snoc digits_val_nat_digits) (simp add: digit_val_digit_char)
  also have "\<dots> = h"
  proof -
    have "h div 100 = h div 10 div 10" by (simp add: div_mult2_eq [symmetric])
    then have "10 * (h div 100) + h div 10 mod 10 = h div 10" by simp
    then show ?thesis by simp
  qed
  finally show ?thesis by simp
qed

lemma strUnsignedDecimalLiteral_spec_fixed2:
  "strUnsignedDecimalLiteral (spec_fixed2 x) = Fin (of_nat (hundredths x) / 100)"
proof -
  define ds where "ds = nat_digits (hundredths x div 100)"
  define a where "a = digit_char (hundredths x div 10 mod 10)"
  define b where "b = digit_char (hundredths x mod 10)"
  have "strUnsignedDecimalLiteral (ds @ ''.'' @ [a, b]) =
      Fin (of_nat (digits_val (ds @ [a, b])) / 100)"
    by (rule strUnsignedDecimalLiteral_fixed2)
      (simp_all add: ds_def a_def b_def nat_digits_nonempty nat_digits_all digit_char_is_digit)
  then show ?thesis
    by (simp only: ds_def a_def b_def spec_fixed2_def hundredths_digits)
qed

lemma parseFloat_spec_fixed2:
  "parseFloat (spec_fixed2 x) = Fin (of_nat (hundredths x) / 100)"
proof -
  obtain c cs where s: "nat_digits (hundredths x div 100) = c # cs"
    using nat_digits_nonempty [of "hundredths x div 100"] by (cases "nat_digits (hundredths x div 100)") auto
  with nat_digits_all [of "hundredths x div 100"] have "is_digit c" by simp
  from parseFloat_digits_first [OF this]
  have "parseFloat (spec_fixed2 x) = strUnsignedDecimalLiteral (spec_fixed2 x)"
    by (simp add: spec_fixed2_def s)
  then show ?thesis by (simp add: strUnsignedDecimalLiteral_spec_fixed2)
qed

lemma fixed2_format_spec_fixed2: "fixed2_format (spec_fixed2 x)"
proof -
  define ds where "ds = nat_digits (hundredths x div 100)"
  define a where "a = digit_char (hundredths x div 10 mod 10)"
  define b where "b = digit_char (hundredths x mod 10)"
  have s: "spec_fixed2 x = ds @ CHR ''.'' # [a, b]"
    by (simp add: spec_fixed2_def ds_def a_def b_def)
  have d: "list_all is_digit ds" "ds \<noteq> []" "is_digit a" "is_digit b"
    by (simp_all add: ds_def a_def b_def nat_digits_all nat_digits_nonempty digit_char_is_digit)
  have len: "length (ds @ CHR ''.'' # [a, b]) = length ds + 3" by simp
  have "4 \<le> length ds + 3" using d(2) by (cases ds) simp_all
  moreover have "take (length ds) (ds @ CHR ''.'' # [a, b]) = ds" by simp
  moreover have "(ds @ CHR ''.'' # [a, b]) ! length ds = CHR ''.''" by simp
  moreover have "drop (length ds + 1) (ds @ CHR ''.'' # [a, b]) = [a, b]" by simp
  ultimately show ?thesis
    unfolding fixed2_format_def s len using d by simp
qed

subsection \<open>The arithmetic on valid inputs\<close>

lemma combinedLR_enumerated:
  assumes "map_of LR_gestationalAge ga = Some a" and "map_of LR_highestTemp t = Some b"
    and "map_of LR_rom r = Some c" and "map_of LR_gbsStatus g = Some d" and "lrIap g i = Some e"
  shows "combinedLR ga t r g i = Fin (a * b * c * d * e)"
  by (simp add: combinedLR_def assms)

lemma spec_posteriorOdds_positive:
  assumes "0 < x" and "x < 1000" and "0 < c"
  shows "0 < spec_posteriorOdds x c"
  using assms by (simp add: spec_posteriorOdds_def spec_priorOdds_def)

lemma spec_risk_bounds:
  assumes "0 < x" and "x < 1000" and "0 < c"
  shows "0 < spec_risk x c" and "spec_risk x c < 1000"
proof -
  let ?p = "spec_posteriorOdds x c"
  have p: "0 < ?p" using assms by (rule spec_posteriorOdds_positive)
  then have "0 < ?p / (1 + ?p) * 1000" by simp
  then show "0 < spec_risk x c" by (simp only: spec_risk_def spec_posteriorProbability_def)
  from p have "?p / (1 + ?p) < 1" by simp
  then have "?p / (1 + ?p) * 1000 < 1 * 1000" by (rule mult_strict_right_mono) simp
  then have "?p / (1 + ?p) * 1000 < 1000" by (simp only: mult_1)
  then show "spec_risk x c < 1000" by (simp only: spec_risk_def spec_posteriorProbability_def)
qed

lemma risk_number:
  assumes "x \<noteq> 1000" and "1 + spec_posteriorOdds x c \<noteq> 0"
  shows "num_mul
           (num_div (num_mul (priorOdds (Fin x)) (Fin c))
              (num_add (Fin 1) (num_mul (priorOdds (Fin x)) (Fin c))))
           (Fin 1000) = Fin (spec_risk x c)"
proof -
  from assms(1) have prior: "priorOdds (Fin x) = Fin (spec_priorOdds x)"
    by (simp add: priorOdds_def num_sub_def spec_priorOdds_def)
  from assms(2) show ?thesis
    by (simp add: prior spec_risk_def spec_posteriorProbability_def
        spec_posteriorOdds_def [symmetric])
qed

lemma sepsisRisk_defined:
  assumes "parseFloat incidence = Fin x" and "0 < x" and "x \<noteq> 1000"
    and "combinedLR ga t r g i = Fin c" and "1 + spec_posteriorOdds x c \<noteq> 0"
  shows "sepsisRisk big incidence ga t r g i = toFixed2 big (Fin (spec_risk x c))"
proof -
  from assms(1,2) have "\<not> (isNaN (parseFloat incidence) \<or> num_le (parseFloat incidence) (Fin 0))"
    by simp
  then have "sepsisRisk big incidence ga t r g i =
      toFixed2 big (num_mul
        (num_div (num_mul (priorOdds (parseFloat incidence)) (combinedLR ga t r g i))
           (num_add (Fin 1) (num_mul (priorOdds (parseFloat incidence)) (combinedLR ga t r g i))))
        (Fin 1000))"
    by (rule sepsisRisk_accepted)
  also have "\<dots> = toFixed2 big (Fin (spec_risk x c))"
    by (simp only: assms(1,4) risk_number [OF assms(3,5)])
  finally show ?thesis .
qed

lemma sepsisRisk_finite:
  assumes "parseFloat incidence = Fin x" and "0 < x" and "x < 1000"
    and "combinedLR ga t r g i = Fin c" and "0 < c"
  shows "sepsisRisk big incidence ga t r g i = spec_fixed2 (spec_risk x c)"
proof -
  have "x \<noteq> 1000" using assms(3) by simp
  moreover have "1 + spec_posteriorOdds x c \<noteq> 0"
    using spec_posteriorOdds_positive [OF assms(2,3,5)] by simp
  ultimately have "sepsisRisk big incidence ga t r g i = toFixed2 big (Fin (spec_risk x c))"
    using assms(1,2,4) by (intro sepsisRisk_defined)
  moreover from spec_risk_bounds [OF assms(2,3,5)]
  have "0 \<le> spec_risk x c" and "spec_risk x c < 10 ^ 21" by simp_all
  ultimately show ?thesis by (simp add: toFixed2_nonneg)
qed



lemma map_of_value_positive:
  assumes "list_all (\<lambda>(k, v). 0 < v) tbl" and "map_of tbl k = Some v"
  shows "(0::rat) < v"
  using assms by (induction tbl) (auto split: if_splits)

lemma lrIap_positive: "lrIap g i = Some e \<Longrightarrow> 0 < e"
  by (auto simp: lrIap_def split: if_splits intro: map_of_value_positive [of LR_iap i]
      simp: LR_iap_def)

lemma combined_positive:
  assumes "map_of LR_gestationalAge ga = Some a" and "map_of LR_highestTemp t = Some b"
    and "map_of LR_rom r = Some c" and "map_of LR_gbsStatus g = Some d" and "lrIap g i = Some e"
  shows "0 < a * b * c * d * e"
proof -
  have "0 < a" by (rule map_of_value_positive [OF _ assms(1)]) (simp add: LR_gestationalAge_def)
  moreover have "0 < b" by (rule map_of_value_positive [OF _ assms(2)]) (simp add: LR_highestTemp_def)
  moreover have "0 < c" by (rule map_of_value_positive [OF _ assms(3)]) (simp add: LR_rom_def)
  moreover have "0 < d" by (rule map_of_value_positive [OF _ assms(4)]) (simp add: LR_gbsStatus_def)
  moreover have "0 < e" using assms(5) by (rule lrIap_positive)
  ultimately show ?thesis by simp
qed

lemma combinedLR_of_enumerated:
  assumes "ga \<in> set (map fst LR_gestationalAge)" and "t \<in> set (map fst LR_highestTemp)"
    and "r \<in> set (map fst LR_rom)" and "g \<in> set (map fst LR_gbsStatus)"
    and "i \<in> set (map fst LR_iap)"
  obtains c where "combinedLR ga t r g i = Fin c" and "0 < c"
proof -
  from enumerated_gestationalAge [OF assms(1)] obtain a where a: "map_of LR_gestationalAge ga = Some a"
    by blast
  from enumerated_highestTemp [OF assms(2)] obtain b where b: "map_of LR_highestTemp t = Some b"
    by blast
  from enumerated_rom [OF assms(3)] obtain c where c: "map_of LR_rom r = Some c"
    by blast
  from enumerated_gbsStatus [OF assms(4)] obtain d where d: "map_of LR_gbsStatus g = Some d"
    by blast
  from enumerated_lrIap [OF assms(5)] obtain e where e: "lrIap g i = Some e"
    by blast
  from combinedLR_enumerated [OF a b c d e] combined_positive [OF a b c d e] that
  show thesis by blast
qed

lemma hundredths_nearest:
  assumes "0 \<le> v"
  shows "\<bar>of_nat (hundredths v) / 100 - v\<bar> \<le> 1 / 200"
proof -
  let ?z = "\<lfloor>v * 100 + 1 / 2\<rfloor>"
  from assms have "0 \<le> ?z" by simp
  then have h: "(of_nat (hundredths v) :: rat) = of_int ?z"
    by (simp add: hundredths_def)
  have "of_int ?z \<le> v * 100 + 1 / 2" and "v * 100 + 1 / 2 < of_int ?z + 1"
    by linarith+
  then have "\<bar>of_int ?z - v * 100\<bar> \<le> 1 / 2" by linarith
  then have "\<bar>(of_int ?z - v * 100) / 100\<bar> \<le> (1 / 2) / 100"
    by (simp only: abs_divide) simp
  then show ?thesis by (simp add: h diff_divide_distrib)
qed

text \<open>Evaluation at concrete inputs.\<close>

lemmas spec_defs =
  spec_risk_def spec_posteriorProbability_def spec_posteriorOdds_def spec_priorOdds_def

lemma hundredths_eq:
  assumes "of_nat N \<le> v * 100 + 1 / 2" and "v * 100 + 1 / 2 < of_nat N + 1"
  shows "hundredths v = N"
proof -
  have "\<lfloor>v * 100 + 1 / 2\<rfloor> = int N"
    by (rule floor_unique) (use assms in simp_all)
  then show ?thesis by (simp add: hundredths_def)
qed

lemma default_combinedLR:
  "combinedLR (geq_sign @ ''42'') ''<38'' ''<12'' ''negative'' ''no_iap_needed'' = Fin 0.1344"
  by (simp add: combinedLR_def table_defs lrIap_def)

subsection \<open>The result on the enumerated inputs\<close>

lemma parseFloat_incidence_options:
  assumes "incidence \<in> set incidence_options"
  obtains x where "parseFloat incidence = Fin x" and "0 < x" and "x < 1000"
proof -
  have p: "parseFloat ''0.2'' = Fin 0.2" "parseFloat ''0.3'' = Fin 0.3" "parseFloat ''0.5'' = Fin 0.5"
    "parseFloat ''0.7'' = Fin 0.7" "parseFloat ''1.0'' = Fin 1"
    by (simp_all add: parse_defs)
  from assms consider "incidence = ''0.2''" | "incidence = ''0.3''" | "incidence = ''0.5''"
    | "incidence = ''0.7''" | "incidence = ''1.0''"
    by (auto simp: incidence_options_def)
  then show thesis
  proof cases
    case 1
    show ?thesis by (rule that [of "0.2"]) (simp_all add: 1 p)
  next
    case 2
    show ?thesis by (rule that [of "0.3"]) (simp_all add: 2 p)
  next
    case 3
    show ?thesis by (rule that [of "0.5"]) (simp_all add: 3 p)
  next
    case 4
    show ?thesis by (rule that [of "0.7"]) (simp_all add: 4 p)
  next
    case 5
    show ?thesis by (rule that [of 1]) (simp_all add: 5 p)
  qed
qed

text \<open>
  Claim C7. For every combination of enumerated codes (the incidence one of the five
  options of its selector, each category code a key of its sub-table), \<open>sepsisRisk\<close>
  returns a string of digits with a point and exactly two decimals, and that string reads
  as a finite number that is not negative.
\<close>

theorem sepsisRisk_enumerated_format:
  "incidence \<in> set incidence_options \<and> ga \<in> set (map fst LR_gestationalAge) \<and>
   t \<in> set (map fst LR_highestTemp) \<and> r \<in> set (map fst LR_rom) \<and>
   g \<in> set (map fst LR_gbsStatus) \<and> i \<in> set (map fst LR_iap) \<longrightarrow>
   fixed2_format (sepsisRisk big incidence ga t r g i) \<and>
   (\<exists>v. parseFloat (sepsisRisk big incidence ga t r g i) = Fin v \<and> 0 \<le> v)"
proof
  assume h: "incidence \<in> set incidence_options \<and> ga \<in> set (map fst LR_gestationalAge) \<and>
   t \<in> set (map fst LR_highestTemp) \<and> r \<in> set (map fst LR_rom) \<and>
   g \<in> set (map fst LR_gbsStatus) \<and> i \<in> set (map fst LR_iap)"
  then obtain x where x: "parseFloat incidence = Fin x" "0 < x" "x < 1000"
    using parseFloat_incidence_options by blast
  from h obtain c where c: "combinedLR ga t r g i = Fin c" "0 < c"
    using combinedLR_of_enumerated by blast
  have eq: "sepsisRisk big incidence ga t r g i = spec_fixed2 (spec_risk x c)"
    using x c by (rule sepsisRisk_finite)
  have "parseFloat (spec_fixed2 (spec_risk x c)) = Fin (of_nat (hundredths (spec_risk x c)) / 100)"
    by (rule parseFloat_spec_fixed2)
  moreover have "(0::rat) \<le> of_nat (hundredths (spec_risk x c)) / 100" by simp
  ultimately have "\<exists>v. parseFloat (spec_fixed2 (spec_risk x c)) = Fin v \<and> 0 \<le> v" by blast
  then show "fixed2_format (sepsisRisk big incidence ga t r g i) \<and>
   (\<exists>v. parseFloat (sepsisRisk big incidence ga t r g i) = Fin v \<and> 0 \<le> v)"
    by (simp only: eq fixed2_format_spec_fixed2 simp_thms)
qed

theorem sepsisRisk_enumerated_format_witness:
  "''0.7'' \<in> set incidence_options \<and> ''38 0/7-38 6/7'' \<in> set (map fst LR_gestationalAge) \<and>
   geq_sign @ ''38'' \<in> set (map fst LR_highestTemp) \<and> ''18-24'' \<in> set (map fst LR_rom) \<and>
   ''positive'' \<in> set (map fst LR_gbsStatus) \<and> ''adequate_cefazolin'' \<in> set (map fst LR_iap) \<and>
   sepsisRisk (\<lambda>_. []) ''0.7'' ''38 0/7-38 6/7'' (geq_sign @ ''38'') ''18-24'' ''positive''
     ''adequate_cefazolin'' = ''1.76'' \<and>
   fixed2_format ''1.76'' \<and> parseFloat ''1.76'' = Fin 1.76 \<and> (0::rat) \<le> 1.76"
proof -
  have e: "''0.7'' \<in> set incidence_options \<and> ''38 0/7-38 6/7'' \<in> set (map fst LR_gestationalAge) \<and>
   geq_sign @ ''38'' \<in> set (map fst LR_highestTemp) \<and> ''18-24'' \<in> set (map fst LR_rom) \<and>
   ''positive'' \<in> set (map fst LR_gbsStatus) \<and> ''adequate_cefazolin'' \<in> set (map fst LR_iap)"
    by (simp add: incidence_options_def table_defs)
  have q: "parseFloat ''0.7'' = Fin 0.7" by (simp add: parse_defs)
  have lr: "combinedLR ''38 0/7-38 6/7'' (geq_sign @ ''38'') ''18-24'' ''positive''
      ''adequate_cefazolin'' = Fin 2.516"
    by (simp add: combinedLR_def table_defs lrIap_def)
  have "sepsisRisk (\<lambda>_. []) ''0.7'' ''38 0/7-38 6/7'' (geq_sign @ ''38'') ''18-24''
      ''positive'' ''adequate_cefazolin'' = spec_fixed2 (spec_risk 0.7 2.516)"
    by (rule sepsisRisk_finite [OF q _ _ lr]) simp_all
  moreover have "hundredths (spec_risk 0.7 2.516) = 176"
    by (rule hundredths_eq) (simp_all add: spec_defs)
  ultimately have v: "sepsisRisk (\<lambda>_. []) ''0.7'' ''38 0/7-38 6/7'' (geq_sign @ ''38'') ''18-24''
      ''positive'' ''adequate_cefazolin'' = ''1.76''"
    by (simp add: spec_fixed2_def nat_digits.simps digit_char_def)
  have p: "parseFloat ''1.76'' = Fin 1.76" by (simp add: parse_defs)
  from sepsisRisk_enumerated_format [of "''0.7''" "''38 0/7-38 6/7''" "geq_sign @ ''38''" "''18-24''"
      "''positive''" "''adequate_cefazolin''" "\<lambda>_. []"] e
  have "fixed2_format (sepsisRisk (\<lambda>_. []) ''0.7'' ''38 0/7-38 6/7'' (geq_sign @ ''38'') ''18-24''
      ''positive'' ''adequate_cefazolin'')"
    by blast
  then have f: "fixed2_format ''1.76''" by (simp only: v)
  have n: "(0::rat) \<le> 1.76" by simp
  from e have m: "''0.7'' \<in> set incidence_options"
    "''38 0/7-38 6/7'' \<in> set (map fst LR_gestationalAge)"
    "geq_sign @ ''38'' \<in> set (map fst LR_highestTemp)" "''18-24'' \<in> set (map fst LR_rom)"
    "''positive'' \<in> set (map fst LR_gbsStatus)" "''adequate_cefazolin'' \<in> set (map fst LR_iap)"
    by blast+
  show ?thesis by (intro conjI) (rule m v f p n)+
qed

subsection \<open>The algorithm\<close>

text \<open>
  Claim C1, as amended. For each of the five incidences the selector offers, read as the
  number \<open>x\<close>, and every combination of category codes whose lookups give the ratios
  \<open>a\<close>, \<open>b\<close>, \<open>c\<close>, \<open>d\<close> and the effective IAP ratio \<open>e\<close>,
  \<open>sepsisRisk\<close> follows the specified algorithm: prior odds \<open>x / (1000 - x)\<close>,
  combined ratio \<open>a * b * c * d * e\<close>, posterior odds their product, posterior
  probability \<open>odds / (1 + odds)\<close>, and the result is that probability times 1000
  rounded to hundredths and written with exactly two decimals: the string is digits, a
  point and two digits, and the number it shows is within half a hundredth of the
  unrounded risk.
\<close>

theorem sepsisRisk_follows_algorithm:
  assumes "incidence \<in> set incidence_options" and "parseFloat incidence = Fin x"
    and "map_of LR_gestationalAge ga = Some a" and "map_of LR_highestTemp t = Some b"
    and "map_of LR_rom r = Some c" and "map_of LR_gbsStatus g = Some d"
    and "lrIap g i = Some e"
  shows "sepsisRisk big incidence ga t r g i = spec_fixed2 (spec_risk x (a * b * c * d * e)) \<and>
         fixed2_format (sepsisRisk big incidence ga t r g i) \<and>
         \<bar>of_nat (hundredths (spec_risk x (a * b * c * d * e))) / 100 -
            spec_risk x (a * b * c * d * e)\<bar> \<le> 1 / 200"
proof -
  let ?lr = "a * b * c * d * e"
  from assms(1) obtain x' where x': "parseFloat incidence = Fin x'" "0 < x'" "x' < 1000"
    by (rule parseFloat_incidence_options)
  with assms(2) have x: "0 < x" "x < 1000" by simp_all
  have lr: "combinedLR ga t r g i = Fin ?lr"
    using assms(3-7) by (rule combinedLR_enumerated)
  have pos: "0 < ?lr" using assms(3-7) by (rule combined_positive)
  have eq: "sepsisRisk big incidence ga t r g i = spec_fixed2 (spec_risk x ?lr)"
    using assms(2) x lr pos by (rule sepsisRisk_finite)
  have "0 \<le> spec_risk x ?lr" using spec_risk_bounds(1) [OF x pos] by simp
  then have "\<bar>of_nat (hundredths (spec_risk x ?lr)) / 100 - spec_risk x ?lr\<bar> \<le> 1 / 200"
    by (rule hundredths_nearest)
  with eq show ?thesis
    by (simp only: fixed2_format_spec_fixed2 simp_thms)
qed

theorem sepsisRisk_follows_algorithm_witness:
  "''0.5'' \<in> set incidence_options \<and> parseFloat ''0.5'' = Fin 0.5 \<and>
   map_of LR_gestationalAge (leq_sign @ ''34 6/7'') = Some 2.3 \<and>
   map_of LR_highestTemp (geq_sign @ ''38'') = Some 3.7 \<and>
   map_of LR_rom ''>24'' = Some 2.1 \<and>
   map_of LR_gbsStatus ''positive'' = Some 2.0 \<and>
   lrIap ''positive'' ''adequate_pen_amp'' = Some 0.2 \<and>
   spec_fixed2 (spec_risk 0.5 (2.3 * 3.7 * 2.1 * 2.0 * 0.2)) = ''3.56'' \<and>
   sepsisRisk (\<lambda>_. []) ''0.5'' (leq_sign @ ''34 6/7'') (geq_sign @ ''38'') ''>24'' ''positive''
     ''adequate_pen_amp'' = ''3.56'' \<and>
   fixed2_format (sepsisRisk (\<lambda>_. []) ''0.5'' (leq_sign @ ''34 6/7'') (geq_sign @ ''38'') ''>24''
     ''positive'' ''adequate_pen_amp'')"
proof -
  have o: "''0.5'' \<in> set incidence_options" by (simp add: incidence_options_def)
  have p: "parseFloat ''0.5'' = Fin 0.5" by (simp add: parse_defs)
  have l: "map_of LR_gestationalAge (leq_sign @ ''34 6/7'') = Some 2.3"
    "map_of LR_highestTemp (geq_sign @ ''38'') = Some 3.7"
    "map_of LR_rom ''>24'' = Some 2.1"
    "map_of LR_gbsStatus ''positive'' = Some 2.0"
    "lrIap ''positive'' ''adequate_pen_amp'' = Some 0.2"
    by (simp_all add: table_defs lrIap_def)
  have "hundredths (spec_risk 0.5 (2.3 * 3.7 * 2.1 * 2.0 * 0.2)) = 356"
    by (rule hundredths_eq) (simp_all add: spec_defs)
  then have s: "spec_fixed2 (spec_risk 0.5 (2.3 * 3.7 * 2.1 * 2.0 * 0.2)) = ''3.56''"
    by (simp add: spec_fixed2_def nat_digits.simps digit_char_def)
  note inst = sepsisRisk_follows_algorithm [OF o p l, of "\<lambda>_. []"]
  from inst have v: "sepsisRisk (\<lambda>_. []) ''0.5'' (leq_sign @ ''34 6/7'') (geq_sign @ ''38'') ''>24''
      ''positive'' ''adequate_pen_amp'' = ''3.56''"
    by (simp only: s)
  from inst have f: "fixed2_format (sepsisRisk (\<lambda>_. []) ''0.5'' (leq_sign @ ''34 6/7'')
      (geq_sign @ ''38'') ''>24'' ''positive'' ''adequate_pen_amp'')"
    by blast
  show ?thesis by (intro conjI) (rule o p l s v f)+
qed

text \<open>
  The claim as stated covers every finite positive incidence. At incidence \<open>1000\<close> the
  prior-odds denominator is zero, the prior odds are infinite, the posterior probability
  is \<open>Infinity / Infinity\<close>, and the result is the string \<open>NaN\<close>, which is no number
  with two decimals.
\<close>

theorem sepsisRisk_incidence_1000_counterexample:
  "parseFloat ''1000'' = Fin 1000 \<and>
   sepsisRisk (\<lambda>_. []) ''1000'' (geq_sign @ ''42'') ''<38'' ''<12'' ''negative'' ''no_iap_needed'' =
     ''NaN'' \<and>
   \<not> fixed2_format ''NaN''"
  by (simp add: sepsisRisk_def parse_defs priorOdds_def num_sub_def default_combinedLR
      inf_times_def toFixed2_def fixed2_format_def)

subsection \<open>Monotonicity in the incidence\<close>




subsection \<open>Incidences from 1000 on\<close>

lemma undefined_probability:
  assumes "po = NaN \<or> po = PInf \<or> po = NInf"
  shows "num_div po (num_add (Fin 1) po) = NaN"
  using assms by auto

lemma infinite_prior_odds: "num_mul PInf l = NaN \<or> num_mul PInf l = PInf \<or> num_mul PInf l = NInf"
  by (cases l) (simp_all add: inf_times_def)

lemma sepsisRisk_not_a_number:
  assumes "parseFloat incidence = PInf \<or> parseFloat incidence = Fin 1000"
  shows "sepsisRisk big incidence ga t r g i = ''NaN''"
proof -
  let ?po = "num_mul (priorOdds (parseFloat incidence)) (combinedLR ga t r g i)"
  from assms have acc: "\<not> (isNaN (parseFloat incidence) \<or> num_le (parseFloat incidence) (Fin 0))"
    by auto
  from assms have "priorOdds (parseFloat incidence) = NaN \<or> priorOdds (parseFloat incidence) = PInf"
    by (auto simp: priorOdds_def num_sub_def)
  then have "?po = NaN \<or> ?po = PInf \<or> ?po = NInf"
    using infinite_prior_odds [of "combinedLR ga t r g i"] by auto
  then have "num_div ?po (num_add (Fin 1) ?po) = NaN" by (rule undefined_probability)
  then show ?thesis by (simp add: sepsisRisk_accepted [OF acc] toFixed2_def)
qed

lemma eval_1000_5: "spec_fixed2 (spec_risk 1000.5 0.1344) = ''1003.73''"
proof -
  have "hundredths (spec_risk 1000.5 0.1344) = 100373"
    by (rule hundredths_eq) (simp_all add: spec_defs)
  then show ?thesis by (simp add: spec_fixed2_def nat_digits.simps digit_char_def)
qed

text \<open>
  Claim C10, as amended. The incidence guard rejects exactly \<open>NaN\<close>, negative infinity
  and the finite values that are not positive, so an incidence that reads as positive
  infinity or as a finite number from 1000 on passes it. For positive infinity and for
  exactly 1000 \<open>sepsisRisk\<close> then returns the string \<open>NaN\<close> instead of \<open>0.00\<close>, and
  the recommendation is Routine Care. Above 1000 neither the sign of the result nor the
  recommendation is fixed.
\<close>

theorem incidence_beyond_guard:
  "((isNaN (parseFloat incidence) \<or> num_le (parseFloat incidence) (Fin 0)) \<longleftrightarrow>
      (parseFloat incidence = NaN \<or> parseFloat incidence = NInf \<or>
       (\<exists>v. parseFloat incidence = Fin v \<and> v \<le> 0))) \<and>
   (parseFloat incidence = PInf \<or> (\<exists>v. parseFloat incidence = Fin v \<and> 1000 \<le> v) \<longrightarrow>
      \<not> (isNaN (parseFloat incidence) \<or> num_le (parseFloat incidence) (Fin 0))) \<and>
   (parseFloat incidence = PInf \<or> parseFloat incidence = Fin 1000 \<longrightarrow>
      sepsisRisk big incidence ga t r g i = ''NaN'' \<and>
      rec_text (recommendation (sepsisRisk big incidence ga t r g i)) = ''Routine Care'')"
proof (intro conjI)
  show "(isNaN (parseFloat incidence) \<or> num_le (parseFloat incidence) (Fin 0)) \<longleftrightarrow>
      (parseFloat incidence = NaN \<or> parseFloat incidence = NInf \<or>
       (\<exists>v. parseFloat incidence = Fin v \<and> v \<le> 0))"
    by (cases "parseFloat incidence") simp_all
next
  show "parseFloat incidence = PInf \<or> (\<exists>v. parseFloat incidence = Fin v \<and> 1000 \<le> v) \<longrightarrow>
      \<not> (isNaN (parseFloat incidence) \<or> num_le (parseFloat incidence) (Fin 0))"
    by auto
next
  show "parseFloat incidence = PInf \<or> parseFloat incidence = Fin 1000 \<longrightarrow>
      sepsisRisk big incidence ga t r g i = ''NaN'' \<and>
      rec_text (recommendation (sepsisRisk big incidence ga t r g i)) = ''Routine Care''"
  proof
    assume "parseFloat incidence = PInf \<or> parseFloat incidence = Fin 1000"
    then have "sepsisRisk big incidence ga t r g i = ''NaN''" by (rule sepsisRisk_not_a_number)
    then show "sepsisRisk big incidence ga t r g i = ''NaN'' \<and>
      rec_text (recommendation (sepsisRisk big incidence ga t r g i)) = ''Routine Care''"
      by (simp only: recommendation_NaN_string simp_thms)
  qed
qed

theorem incidence_beyond_guard_witness:
  "parseFloat ''Infinity'' = PInf \<and>
   \<not> (isNaN (parseFloat ''Infinity'') \<or> num_le (parseFloat ''Infinity'') (Fin 0)) \<and>
   sepsisRisk (\<lambda>_. []) ''Infinity'' (geq_sign @ ''42'') ''<38'' ''<12'' ''negative'' ''no_iap_needed'' =
     ''NaN'' \<and>
   rec_text (recommendation
     (sepsisRisk (\<lambda>_. []) ''Infinity'' (geq_sign @ ''42'') ''<38'' ''<12'' ''negative''
        ''no_iap_needed'')) = ''Routine Care'' \<and>
   parseFloat ''1000'' = Fin 1000 \<and>
   \<not> (isNaN (parseFloat ''1000'') \<or> num_le (parseFloat ''1000'') (Fin 0)) \<and>
   sepsisRisk (\<lambda>_. []) ''1000'' (leq_sign @ ''34 6/7'') (geq_sign @ ''38'') ''>24'' ''positive''
     ''adequate_pen_amp'' = ''NaN'' \<and>
   rec_text (recommendation
     (sepsisRisk (\<lambda>_. []) ''1000'' (leq_sign @ ''34 6/7'') (geq_sign @ ''38'') ''>24'' ''positive''
        ''adequate_pen_amp'')) = ''Routine Care''"
proof -
  have p: "parseFloat ''Infinity'' = PInf" "parseFloat ''1000'' = Fin 1000"
    by (simp_all add: parse_defs)
  have q: "\<exists>v. parseFloat ''1000'' = Fin v \<and> 1000 \<le> v"
    by (intro exI [of _ 1000]) (simp add: p)
  note inf = incidence_beyond_guard [where incidence = "''Infinity''" and big = "\<lambda>_. []"
      and ga = "geq_sign @ ''42''" and t = "''<38''" and r = "''<12''" and g = "''negative''"
      and i = "''no_iap_needed''"]
  note thousand = incidence_beyond_guard [where incidence = "''1000''" and big = "\<lambda>_. []"
      and ga = "leq_sign @ ''34 6/7''" and t = "geq_sign @ ''38''" and r = "''>24''"
      and g = "''positive''" and i = "''adequate_pen_amp''"]
  from inf p(1)
  have a: "\<not> (isNaN (parseFloat ''Infinity'') \<or> num_le (parseFloat ''Infinity'') (Fin 0))"
    "sepsisRisk (\<lambda>_. []) ''Infinity'' (geq_sign @ ''42'') ''<38'' ''<12'' ''negative''
      ''no_iap_needed'' = ''NaN''"
    "rec_text (recommendation (sepsisRisk (\<lambda>_. []) ''Infinity'' (geq_sign @ ''42'') ''<38'' ''<12''
      ''negative'' ''no_iap_needed'')) = ''Routine Care''"
    by blast+
  from thousand p(2) q
  have b: "\<not> (isNaN (parseFloat ''1000'') \<or> num_le (parseFloat ''1000'') (Fin 0))"
    "sepsisRisk (\<lambda>_. []) ''1000'' (leq_sign @ ''34 6/7'') (geq_sign @ ''38'') ''>24'' ''positive''
      ''adequate_pen_amp'' = ''NaN''"
    "rec_text (recommendation (sepsisRisk (\<lambda>_. []) ''1000'' (leq_sign @ ''34 6/7'')
      (geq_sign @ ''38'') ''>24'' ''positive'' ''adequate_pen_amp'')) = ''Routine Care''"
    by blast+
  show ?thesis by (intro conjI) (rule p a b)+
qed

text \<open>
  The claim as stated has \<open>NaN\<close> or a negative value, and Routine Care, at every
  incidence from 1000 on. At incidence \<open>1000.5\<close> with the default codes the prior odds
  are \<open>-2001\<close>, the posterior odds are below \<open>-1\<close>, the result is \<open>1003.73\<close> and the
  recommendation is Empiric Antibiotics Recommended.
\<close>

theorem incidence_beyond_guard_counterexample:
  "parseFloat ''1000.5'' = Fin 1000.5 \<and>
   sepsisRisk (\<lambda>_. []) ''1000.5'' (geq_sign @ ''42'') ''<38'' ''<12'' ''negative'' ''no_iap_needed'' =
     ''1003.73'' \<and>
   rec_text (recommendation
     (sepsisRisk (\<lambda>_. []) ''1000.5'' (geq_sign @ ''42'') ''<38'' ''<12'' ''negative''
        ''no_iap_needed'')) = ''Empiric Antibiotics Recommended''"
proof -
  have p: "parseFloat ''1000.5'' = Fin 1000.5" by (simp add: parse_defs)
  have "sepsisRisk (\<lambda>_. []) ''1000.5'' (geq_sign @ ''42'') ''<38'' ''<12'' ''negative''
      ''no_iap_needed'' = toFixed2 (\<lambda>_. []) (Fin (spec_risk 1000.5 0.1344))"
    by (rule sepsisRisk_defined [OF p _ _ default_combinedLR]) (simp_all add: spec_defs)
  also have "\<dots> = spec_fixed2 (spec_risk 1000.5 0.1344)"
    by (rule toFixed2_nonneg) (simp_all add: spec_defs)
  finally have v: "sepsisRisk (\<lambda>_. []) ''1000.5'' (geq_sign @ ''42'') ''<38'' ''<12'' ''negative''
      ''no_iap_needed'' = ''1003.73''"
    by (simp only: eval_1000_5)
  have "parseFloat ''1003.73'' = Fin 1003.73" by (simp add: parse_defs)
  then have "rec_text (recommendation ''1003.73'') = ''Empiric Antibiotics Recommended''"
    by (simp add: recommendation_def num_gt_def)
  then have e: "rec_text (recommendation
     (sepsisRisk (\<lambda>_. []) ''1000.5'' (geq_sign @ ''42'') ''<38'' ''<12'' ''negative''
        ''no_iap_needed'')) = ''Empiric Antibiotics Recommended''"
    by (simp only: v)
  show ?thesis by (intro conjI) (rule p v e)+
qed

end
